theory Spec2Isabelle
  imports Main "HOL-Library.AList"
begin

section \<open>JavaScript values, faults and console output\<close>

text \<open>
  The values the queries of \<^verbatim>\<open>Averigua.js\<close> read from the host and return to the caller.
  Numbers are the integral ones (orientation angles, element sizes); strings are byte
  strings; an object is the ordered list of its own properties.
\<close>

datatype jsval =
    JUndefined
  | JNull
  | JBool bool
  | JNum int
  | JStr string
  | JFun
  | JArr "jsval list"
  | JObj "(string \<times> jsval) list"

text \<open>What \<^verbatim>\<open>if (v)\<close>, \<^verbatim>\<open>!!v\<close> and \<^verbatim>\<open>v || w\<close> test.\<close>

fun truthy :: "jsval \<Rightarrow> bool" where
  "truthy JUndefined = False"
| "truthy JNull = False"
| "truthy (JBool b) = b"
| "truthy (JNum n) = (n \<noteq> 0)"
| "truthy (JStr s) = (s \<noteq> [])"
| "truthy JFun = True"
| "truthy (JArr xs) = True"
| "truthy (JObj ps) = True"

fun typeof :: "jsval \<Rightarrow> string" where
  "typeof JUndefined = ''undefined''"
| "typeof JNull = ''object''"
| "typeof (JBool b) = ''boolean''"
| "typeof (JNum n) = ''number''"
| "typeof (JStr s) = ''string''"
| "typeof JFun = ''function''"
| "typeof (JArr xs) = ''object''"
| "typeof (JObj ps) = ''object''"

text \<open>
  A hard fault: an exception that leaves the query. \<open>ReferenceError\<close> names the
  undeclared global, \<open>TypeError\<close> the expression whose property was read from
  \<^verbatim>\<open>null\<close>/\<^verbatim>\<open>undefined\<close> (or that was called without being a function), and
  \<open>HostError\<close> is an exception thrown by a host accessor.
\<close>

datatype fault = ReferenceError string | TypeError string | HostError string

text \<open>
  The outcome of a query: the lines written with \<^verbatim>\<open>console.error\<close>, and either the
  fault raised or the value returned.
\<close>

type_synonym outcome = "string list \<times> (fault + jsval)"

definition returns :: "jsval \<Rightarrow> outcome" where
  "returns v = ([], Inr v)"

definition throws :: "fault \<Rightarrow> outcome" where
  "throws e = ([], Inl e)"


section \<open>The host\<close>

text \<open>
  The ambient globals the queries read. A global that is not declared is \<open>None\<close>:
  reading it raises a \<open>ReferenceError\<close>, and \<^verbatim>\<open>typeof\<close> of it is \<^verbatim>\<open>'undefined'\<close>.
\<close>

text \<open>A property whose getter may throw (storage globals in restricted contexts).\<close>

datatype getter = Throws fault | Yields jsval

record mimeType_obj =
  mime_description :: jsval
  mime_type :: jsval
  mime_suffixes :: jsval

record plugin_obj =
  plugin_name :: jsval
  plugin_description :: jsval
  plugin_filename :: jsval
  plugin_mimeTypes :: "mimeType_obj list"

record navigator_obj =
  nav_userAgent :: string
  nav_appName :: jsval
  nav_appVersion :: jsval
  nav_doNotTrack :: jsval
  nav_getVRDisplays :: jsval
  nav_requestMIDIAccess :: jsval
  nav_plugins :: "plugin_obj list option"
  nav_oscpu :: jsval
  nav_hardwareConcurrency :: jsval
  nav_platform :: jsval

text \<open>
  \<open>win_matchMedia\<close> is \<^verbatim>\<open>window.matchMedia\<close>, when it is a function: it gives the
  \<^verbatim>\<open>matches\<close> property of the list it returns. \<open>win_has_ontouchstart\<close> is
  \<^verbatim>\<open>'ontouchstart' in window\<close>.
\<close>

record window_obj =
  win_WebGLRenderingContext :: jsval
  win_has_ontouchstart :: bool
  win_DocumentTouch :: jsval
  win_matchMedia :: "(string \<Rightarrow> jsval) option"
  win_orientation :: jsval
  win_localStorage :: getter
  win_sessionStorage :: getter
  win_indexedDB :: getter

record debug_renderer_info =
  UNMASKED_VENDOR_WEBGL :: jsval
  UNMASKED_RENDERER_WEBGL :: jsval

record gl_context =
  gl_getExtension :: "string \<Rightarrow> debug_renderer_info option"
  gl_VENDOR :: jsval
  gl_RENDERER :: jsval
  gl_getParameter :: "jsval \<Rightarrow> jsval"

subsection \<open>The document tree\<close>

text \<open>
  Elements live in a store and are referred to by their index, as the code holds
  references to them; \<open>children\<close> lists the indices of the child elements in order.
\<close>

record element =
  tagName :: string
  style :: "(string \<times> string) list"
  innerHTML :: string
  children :: "nat list"

record dom =
  nodes :: "element list"
  body :: "nat option"

text \<open>
  \<open>doc_layout\<close> is the host's layout engine: the \<^verbatim>\<open>offsetWidth\<close> and
  \<^verbatim>\<open>offsetHeight\<close> it reports for an element of the current tree.
  \<open>canvas_getContext\<close> is \<^verbatim>\<open>getContext\<close> of a fresh canvas element (\<open>None\<close> is
  \<^verbatim>\<open>null\<close>), \<open>audio_canPlayType\<close> and \<open>video_canPlayType\<close> are the
  \<^verbatim>\<open>canPlayType\<close> of a fresh audio and video element when it is a function.
\<close>

record document_obj =
  doc_dom :: dom
  doc_layout :: "dom \<Rightarrow> nat \<Rightarrow> int \<times> int"
  canvas_getContext :: "string \<Rightarrow> gl_context option"
  audio_canPlayType :: "(string \<Rightarrow> jsval) option"
  video_canPlayType :: "(string \<Rightarrow> jsval) option"
  video_has_poster :: bool
  track_has_src :: bool
  doc_instanceof_DocumentTouch :: bool

record os_module =
  os_arch :: jsval
  os_type :: jsval
  os_release :: jsval
  os_cpus :: jsval
  os_freemem :: jsval
  os_totalmem :: jsval
  os_homedir :: jsval
  os_hostname :: jsval
  os_userInfo :: jsval
  os_networkInterfaces :: jsval

record process_obj =
  proc_version :: jsval
  proc_platform :: jsval
  proc_env :: jsval

text \<open>\<open>require_os\<close> is \<^verbatim>\<open>require('os')\<close>, when \<^verbatim>\<open>require\<close> is declared.\<close>

record host =
  window :: "window_obj option"
  document :: "document_obj option"
  navigator :: "navigator_obj option"
  process :: "process_obj option"
  require_os :: "os_module option"

section \<open>Strings and the regular expressions of the source\<close>

text \<open>
  The string methods the code calls: \<^verbatim>\<open>split\<close> at a one-character separator,
  \<^verbatim>\<open>join\<close>, and \<^verbatim>\<open>replace\<close> of the first occurrence of a substring.
\<close>

fun split_str :: "char \<Rightarrow> string \<Rightarrow> string list" where
  "split_str sep [] = [[]]"
| "split_str sep (c # cs) =
    (if c = sep then [] # split_str sep cs
     else (case split_str sep cs of [] \<Rightarrow> [[c]] | p # ps \<Rightarrow> (c # p) # ps))"

fun join_str :: "string \<Rightarrow> string list \<Rightarrow> string" where
  "join_str sep [] = []"
| "join_str sep [x] = x"
| "join_str sep (x # y # ys) = x @ sep @ join_str sep (y # ys)"

fun prefix_of :: "string \<Rightarrow> string \<Rightarrow> bool" where
  "prefix_of [] s = True"
| "prefix_of (p # ps) [] = False"
| "prefix_of (p # ps) (c # cs) = (p = c \<and> prefix_of ps cs)"

fun replace_first :: "string \<Rightarrow> string \<Rightarrow> string \<Rightarrow> string" where
  "replace_first pat by [] = (if pat = [] then by else [])"
| "replace_first pat by (c # cs) =
    (if prefix_of pat (c # cs) then by @ drop (length pat) (c # cs)
     else c # replace_first pat by cs)"

text \<open>
  Character classes: \<^verbatim>\<open>\d\<close>, \<^verbatim>\<open>\s\<close> (the white space among the bytes) and \<^verbatim>\<open>\w\<close>.
  Under the \<^verbatim>\<open>i\<close> flag an ASCII letter of a pattern matches both of its cases and
  nothing else.
\<close>

definition is_digit :: "char \<Rightarrow> bool" where
  "is_digit c = (let n = (of_char c :: nat) in 48 \<le> n \<and> n \<le> 57)"

definition is_space :: "char \<Rightarrow> bool" where
  "is_space c = (let n = (of_char c :: nat) in (9 \<le> n \<and> n \<le> 13) \<or> n = 32 \<or> n = 160)"

definition is_word :: "char \<Rightarrow> bool" where
  "is_word c = (let n = (of_char c :: nat) in
     (48 \<le> n \<and> n \<le> 57) \<or> (65 \<le> n \<and> n \<le> 90) \<or> (97 \<le> n \<and> n \<le> 122) \<or> n = 95)"

definition lower :: "char \<Rightarrow> char" where
  "lower c = (let n = (of_char c :: nat) in if 65 \<le> n \<and> n \<le> 90 then char_of (n + 32) else c)"

fun ci_prefix :: "string \<Rightarrow> string \<Rightarrow> bool" where
  "ci_prefix [] s = True"
| "ci_prefix (p # ps) [] = False"
| "ci_prefix (p # ps) (c # cs) = (lower p = lower c \<and> ci_prefix ps cs)"

text \<open>The first alternative of \<open>ts\<close>, in order, that matches at the head of \<open>s\<close>.\<close>

fun first_alt :: "(string \<Rightarrow> string \<Rightarrow> bool) \<Rightarrow> string list \<Rightarrow> string \<Rightarrow> string option" where
  "first_alt m [] s = None"
| "first_alt m (t # ts) s = (if m t s then Some t else first_alt m ts s)"

text \<open>A regular expression is tried at every position from the left; the first match wins.\<close>

fun search :: "(string \<Rightarrow> 'a option) \<Rightarrow> string \<Rightarrow> 'a option" where
  "search m [] = m []"
| "search m (c # cs) = (case m (c # cs) of Some r \<Rightarrow> Some r | None \<Rightarrow> search m cs)"

text \<open>
  The same for an expression that starts with \<^verbatim>\<open>\b\<close> followed by a word character:
  it can match only at the start of the string or after a character that is not a word
  character. \<open>prev\<close> is the character before the position.
\<close>

fun search_b :: "(string \<Rightarrow> 'a option) \<Rightarrow> char option \<Rightarrow> string \<Rightarrow> 'a option" where
  "search_b m prev [] = None"
| "search_b m prev (c # cs) =
    (case (if (case prev of None \<Rightarrow> True | Some p \<Rightarrow> \<not> is_word p) then m (c # cs) else None) of
       Some r \<Rightarrow> Some r
     | None \<Rightarrow> search_b m (Some c) cs)"

text \<open>\<^verbatim>\<open>(\d+)\<close> at the head of \<open>s\<close>: the longest run of digits, which must not be empty.\<close>

definition digits :: "string \<Rightarrow> string option" where
  "digits s = (let ds = takeWhile is_digit s in if ds = [] then None else Some ds)"

text \<open>
  \<^verbatim>\<open>/Android|webOS|iPhone|iPad|iPod|BlackBerry|BB|PlayBook|IEMobile|Windows Phone|Kindle|Silk|Opera Mini/i\<close>
\<close>

definition mobile_tokens :: "string list" where
  "mobile_tokens = [''Android'', ''webOS'', ''iPhone'', ''iPad'', ''iPod'', ''BlackBerry'', ''BB'',
     ''PlayBook'', ''IEMobile'', ''Windows Phone'', ''Kindle'', ''Silk'', ''Opera Mini'']"

definition test_mobile :: "string \<Rightarrow> bool" where
  "test_mobile ua = (search (first_alt ci_prefix mobile_tokens) ua \<noteq> None)"

text \<open>
  \<^verbatim>\<open>/(opera|chrome|safari|firefox|msie|trident(?=\/))\/?\s*(\d+)/i\<close>: the two groups of the
  leftmost match. The alternatives start with different letters, so at most one of them
  matches at a position; a slash is neither white space nor a digit and white space is not
  a digit, so giving back what \<^verbatim>\<open>\/?\<close> or \<^verbatim>\<open>\s*\<close> took never makes \<^verbatim>\<open>(\d+)\<close> match.
\<close>

definition match_name_at :: "string \<Rightarrow> string option" where
  "match_name_at s =
    (case first_alt ci_prefix [''opera'', ''chrome'', ''safari'', ''firefox'', ''msie''] s of
       Some t \<Rightarrow> Some (take (length t) s)
     | None \<Rightarrow>
         if ci_prefix ''trident'' s \<and> prefix_of ''/'' (drop 7 s) then Some (take 7 s) else None)"

definition match_browser_at :: "string \<Rightarrow> (string \<times> string) option" where
  "match_browser_at s =
    (case match_name_at s of
       None \<Rightarrow> None
     | Some name \<Rightarrow>
         (let r = drop (length name) s;
              r1 = (if prefix_of ''/'' r then drop 1 r else r);
              r2 = dropWhile is_space r1
          in case digits r2 of None \<Rightarrow> None | Some ds \<Rightarrow> Some (name, ds)))"

definition match_browser :: "string \<Rightarrow> (string \<times> string) option" where
  "match_browser ua = search match_browser_at ua"

text \<open>\<^verbatim>\<open>/trident/i.test(x)\<close>\<close>

definition test_trident :: "string \<Rightarrow> bool" where
  "test_trident x = (search (\<lambda>s. if ci_prefix ''trident'' s then Some () else None) x \<noteq> None)"

text \<open>\<^verbatim>\<open>/\brv[ :]+(\d+)/g\<close>, run once from the start of the string: its group.\<close>

definition match_rv_at :: "string \<Rightarrow> string option" where
  "match_rv_at s =
    (if prefix_of ''rv'' s then
       (let r = drop 2 s; seps = takeWhile (\<lambda>c. c = CHR '' '' \<or> c = CHR '':'') r
        in if seps = [] then None else digits (drop (length seps) r))
     else None)"

definition match_rv :: "string \<Rightarrow> string option" where
  "match_rv ua = search_b match_rv_at None ua"

text \<open>\<^verbatim>\<open>/\b(OPR|Edge)\/(\d+)/\<close>: its two groups.\<close>

definition match_opr_edge_at :: "string \<Rightarrow> (string \<times> string) option" where
  "match_opr_edge_at s =
    (case first_alt prefix_of [''OPR'', ''Edge''] s of
       None \<Rightarrow> None
     | Some t \<Rightarrow>
         (let r = drop (length t) s
          in if prefix_of ''/'' r
             then (case digits (drop 1 r) of None \<Rightarrow> None | Some ds \<Rightarrow> Some (t, ds))
             else None))"

definition match_opr_edge :: "string \<Rightarrow> (string \<times> string) option" where
  "match_opr_edge ua = search_b match_opr_edge_at None ua"

text \<open>\<^verbatim>\<open>/version\/(\d+)/i\<close>: its group.\<close>

definition match_version_at :: "string \<Rightarrow> string option" where
  "match_version_at s = (if ci_prefix ''version/'' s then digits (drop 8 s) else None)"

definition match_version :: "string \<Rightarrow> string option" where
  "match_version ua = search match_version_at ua"

section \<open>The runtime classifiers and the guard\<close>

text \<open>
  \<^verbatim>\<open>_browserErr\<close> writes one line with \<^verbatim>\<open>console.error\<close> and has no
  \<^verbatim>\<open>return\<close>: the guard \<^verbatim>\<open>return this._browserErr()\<close> returns \<^verbatim>\<open>undefined\<close>.
\<close>

definition browserErr :: outcome where
  "browserErr = ([''Averigua: this is not a browser''], Inr JUndefined)"

definition isNode :: "host \<Rightarrow> outcome" where
  "isNode h = (case process h of Some p \<Rightarrow> returns (proc_version p) | None \<Rightarrow> returns (JBool False))"

definition isBrowser :: "host \<Rightarrow> bool" where
  "isBrowser h = (window h \<noteq> None \<and> document h \<noteq> None)"

section \<open>Device and capability probes\<close>

text \<open>
  Queries that pass the guard read \<^verbatim>\<open>window\<close>, \<^verbatim>\<open>document\<close> and
  \<^verbatim>\<open>navigator\<close>; the first two are declared then, the third is a global of its own.
\<close>

definition with_navigator :: "host \<Rightarrow> (navigator_obj \<Rightarrow> outcome) \<Rightarrow> outcome" where
  "with_navigator h f = (case navigator h of None \<Rightarrow> throws (ReferenceError ''navigator'') | Some n \<Rightarrow> f n)"

definition with_window :: "host \<Rightarrow> (window_obj \<Rightarrow> outcome) \<Rightarrow> outcome" where
  "with_window h f = (case window h of None \<Rightarrow> throws (ReferenceError ''window'') | Some w \<Rightarrow> f w)"

definition with_document :: "host \<Rightarrow> (document_obj \<Rightarrow> outcome) \<Rightarrow> outcome" where
  "with_document h f = (case document h of None \<Rightarrow> throws (ReferenceError ''document'') | Some d \<Rightarrow> f d)"

definition orientation :: "host \<Rightarrow> outcome" where
  "orientation h =
    (if \<not> isBrowser h then browserErr
     else with_window h (\<lambda>w.
       if truthy (win_orientation w) then
         (if win_orientation w = JNum (-90) \<or> win_orientation w = JNum 90
          then returns (JStr ''landscape'')
          else returns (JStr ''portrait''))
       else returns (JStr ''no-support'')))"

definition isMobile :: "host \<Rightarrow> outcome" where
  "isMobile h =
    (if \<not> isBrowser h then browserErr
     else with_navigator h (\<lambda>n.
       if test_mobile (nav_userAgent n) then returns (JBool True) else returns (JBool False)))"

definition hasWebGL :: "host \<Rightarrow> outcome" where
  "hasWebGL h =
    (if \<not> isBrowser h then browserErr
     else with_window h (\<lambda>w. with_document h (\<lambda>d.
       returns (JBool (truthy (win_WebGLRenderingContext w) \<and>
                       canvas_getContext d ''experimental-webgl'' \<noteq> None)))))"

definition hasWebVR :: "host \<Rightarrow> outcome" where
  "hasWebVR h =
    (if \<not> isBrowser h then browserErr
     else with_navigator h (\<lambda>n. returns (JBool (typeof (nav_getVRDisplays n) \<noteq> ''undefined''))))"

definition hasMIDI :: "host \<Rightarrow> outcome" where
  "hasMIDI h =
    (if \<not> isBrowser h then browserErr
     else with_navigator h (\<lambda>n.
       if truthy (nav_requestMIDIAccess n) then returns (JBool True) else returns (JBool False)))"

text \<open>
  The media query of \<^verbatim>\<open>hasTouch\<close>:
  \<^verbatim>\<open>['(', prefixes.join('touch-enabled),('), 'heartz', ')'].join('')\<close> with
  \<^verbatim>\<open>prefixes = ' -webkit- -moz- -o- -ms- '.split(' ')\<close>.
\<close>

definition prefixes :: "string list" where
  "prefixes = split_str (CHR '' '') '' -webkit- -moz- -o- -ms- ''"

definition hasTouch_query :: string where
  "hasTouch_query = join_str [] [''('', join_str ''touch-enabled),('' prefixes, ''heartz'', '')'']"

text \<open>
  \<^verbatim>\<open>mq\<close> calls \<^verbatim>\<open>window.matchMedia\<close>; \<^verbatim>\<open>document instanceof DocumentTouch\<close> is
  evaluated only when \<^verbatim>\<open>window.DocumentTouch\<close> is truthy, and raises a
  \<open>TypeError\<close> when its right-hand side is not a function.
\<close>

definition hasTouch :: "host \<Rightarrow> outcome" where
  "hasTouch h =
    (if \<not> isBrowser h then browserErr
     else with_window h (\<lambda>w. with_document h (\<lambda>d.
       if win_has_ontouchstart w then returns (JBool True)
       else if truthy (win_DocumentTouch w) \<and> win_DocumentTouch w \<noteq> JFun
         then throws (TypeError ''instanceof DocumentTouch'')
       else if truthy (win_DocumentTouch w) \<and> doc_instanceof_DocumentTouch d
         then returns (JBool True)
       else (case win_matchMedia w of
               None \<Rightarrow> throws (TypeError ''window.matchMedia'')
             | Some mq \<Rightarrow>
                 if truthy (mq hasTouch_query) then returns (JBool True)
                 else returns (JBool False)))))"

definition doNotTrack :: "host \<Rightarrow> outcome" where
  "doNotTrack h =
    (if \<not> isBrowser h then browserErr
     else with_navigator h (\<lambda>n.
       if nav_doNotTrack n = JStr ''1'' \<or> nav_doNotTrack n = JStr ''yes''
       then returns (JBool True) else returns (JBool False)))"

text \<open>
  \<^verbatim>\<open>gpuInfo\<close> starts with \<^verbatim>\<open>document.createElement('canvas')\<close>: it has no guard.
  \<^verbatim>\<open>gl.getExtension\<close> on a \<^verbatim>\<open>null\<close> context is the \<open>TypeError\<close>.
\<close>

definition gpuInfo :: "host \<Rightarrow> outcome" where
  "gpuInfo h =
    with_document h (\<lambda>d.
      case canvas_getContext d ''webgl'' of
        None \<Rightarrow> throws (TypeError ''gl.getExtension'')
      | Some gl \<Rightarrow>
          (let dbgRenNfo = gl_getExtension gl ''WEBGL_debug_renderer_info'';
               vendor = gl_getParameter gl (gl_VENDOR gl);
               renderer = gl_getParameter gl (gl_RENDERER gl)
           in case dbgRenNfo of
                Some i \<Rightarrow>
                  returns (JObj [(''vendor'', gl_getParameter gl (UNMASKED_VENDOR_WEBGL i)),
                                 (''renderer'', gl_getParameter gl (UNMASKED_RENDERER_WEBGL i))])
              | None \<Rightarrow> returns (JObj [(''vendor'', vendor), (''renderer'', renderer)])))"

section \<open>Browser and platform information\<close>

definition browserInfo :: "host \<Rightarrow> outcome" where
  "browserInfo h =
    (if \<not> isBrowser h then browserErr
     else with_navigator h (\<lambda>n.
       let ua = nav_userAgent n; M = match_browser ua
       in if (case M of Some (name, ver) \<Rightarrow> test_trident name | None \<Rightarrow> False) then
            returns (JStr (''IE '' @ (case match_rv ua of Some v \<Rightarrow> v | None \<Rightarrow> [])))
          else
            (case (case M of
                     Some (name, ver) \<Rightarrow> if name = ''Chrome'' then match_opr_edge ua else None
                   | None \<Rightarrow> None) of
               Some (b, v) \<Rightarrow> returns (JStr (replace_first ''OPR'' ''Opera'' (join_str '' '' [b, v])))
             | None \<Rightarrow>
                 (let M1 = (case M of
                              Some (name, ver) \<Rightarrow>
                                if ver \<noteq> [] then [JStr name, JStr ver]
                                else [nav_appName n, nav_appVersion n, JStr ''-?'']
                            | None \<Rightarrow> [nav_appName n, nav_appVersion n, JStr ''-?'']);
                      M2 = (case match_version ua of Some v \<Rightarrow> M1[1 := JStr v] | None \<Rightarrow> M1)
                  in returns (JObj [(''name'', M2 ! 0), (''version'', M2 ! 1)])))))"

text \<open>One query after another: the console lines add up, a fault ends the sequence.\<close>

definition bind :: "outcome \<Rightarrow> (jsval \<Rightarrow> outcome) \<Rightarrow> outcome" where
  "bind m f =
    (case snd m of
       Inl e \<Rightarrow> (fst m, Inl e)
     | Inr v \<Rightarrow> (fst m @ fst (f v), snd (f v)))"

definition platformInfo :: "host \<Rightarrow> outcome" where
  "platformInfo h =
    (if isBrowser h then
       bind (isMobile h) (\<lambda>mobile. bind (browserInfo h) (\<lambda>browser.
         with_navigator h (\<lambda>n.
           returns (JObj [(''mobile'', mobile), (''browser'', browser), (''oscpu'', nav_oscpu n),
                          (''processors'', nav_hardwareConcurrency n),
                          (''platform'', nav_platform n)]))))
     else
       (case require_os h of
          None \<Rightarrow> throws (ReferenceError ''require'')
        | Some os \<Rightarrow>
            (case process h of
               None \<Rightarrow> throws (ReferenceError ''process'')
             | Some p \<Rightarrow>
                 returns (JObj [(''platform'', proc_platform p),
                   (''os'', JObj [(''arch'', os_arch os), (''type'', os_type os),
                      (''release'', os_release os), (''cpus'', os_cpus os),
                      (''freemem'', os_freemem os), (''totalmem'', os_totalmem os),
                      (''homedir'', os_homedir os), (''hostname'', os_hostname os),
                      (''userInfo'', os_userInfo os),
                      (''networkInterfaces'', os_networkInterfaces os)]),
                   (''env'', proc_env p)]))))"

section \<open>Media, plugin and storage support\<close>

text \<open>\<^verbatim>\<open>x = a.canPlayType(t); if (x === '') x = 'no'\<close>\<close>

definition or_no :: "jsval \<Rightarrow> jsval" where
  "or_no v = (if v = JStr [] then JStr ''no'' else v)"

definition audioSupport :: "host \<Rightarrow> outcome" where
  \<open>audioSupport h =
    (if \<not> isBrowser h then browserErr
     else with_document h (\<lambda>d.
       case audio_canPlayType d of
         None \<Rightarrow>
           returns (JObj [(''mp3'', JStr ''no''), (''vorbis'', JStr ''no''), (''wav'', JStr ''no''),
                          (''aac'', JStr ''no'')])
       | Some canPlayType \<Rightarrow>
           returns (JObj [(''mp3'', or_no (canPlayType ''audio/mpeg;'')),
                          (''vorbis'', or_no (canPlayType ''audio/ogg; codecs="vorbis"'')),
                          (''wav'', or_no (canPlayType ''audio/wav; codecs="1"'')),
                          (''aac'', or_no (canPlayType ''audio/mp4; codecs="mp4a.40.2"''))])))\<close>

definition videoSupport :: "host \<Rightarrow> outcome" where
  \<open>videoSupport h =
    (if \<not> isBrowser h then browserErr
     else with_document h (\<lambda>d.
       case video_canPlayType d of
         None \<Rightarrow>
           returns (JObj [(''captions'', JStr ''no''), (''poster'', JStr ''no''),
                          (''webm'', JStr ''no''), (''h264'', JStr ''no''), (''theora'', JStr ''no'')])
       | Some canPlayType \<Rightarrow>
           returns (JObj [(''captions'', JStr (if track_has_src d then ''probably'' else ''no'')),
                          (''poster'', JStr (if video_has_poster d then ''probably'' else ''no'')),
                          (''webm'', or_no (canPlayType ''video/webm; codecs="vp8, vorbis"'')),
                          (''h264'', or_no (canPlayType ''video/mp4; codecs="avc1.42E01E, mp4a.40.2"'')),
                          (''theora'', or_no (canPlayType ''video/ogg; codecs="theora"''))])))\<close>

definition mimeType_entry :: "mimeType_obj \<Rightarrow> jsval" where
  "mimeType_entry m =
    JObj [(''description'', mime_description m), (''type'', mime_type m),
          (''suffixes'', mime_suffixes m)]"

definition plugin_entry :: "plugin_obj \<Rightarrow> jsval" where
  "plugin_entry p =
    JObj [(''name'', plugin_name p), (''description'', plugin_description p),
          (''filename'', plugin_filename p),
          (''array'', JArr (map mimeType_entry (plugin_mimeTypes p)))]"

definition pluginSupport :: "host \<Rightarrow> outcome" where
  "pluginSupport h =
    (if \<not> isBrowser h then browserErr
     else with_navigator h (\<lambda>n.
       case nav_plugins n of
         None \<Rightarrow> throws (TypeError ''navigator.plugins.length'')
       | Some ps \<Rightarrow> returns (JArr (map plugin_entry ps))))"

text \<open>
  The three globals are read in turn, with no handler around the reads: a getter that
  throws ends the query with its exception.
\<close>

definition storageSupport :: "host \<Rightarrow> outcome" where
  "storageSupport h =
    (if \<not> isBrowser h then browserErr
     else with_window h (\<lambda>w.
       case win_localStorage w of
         Throws e \<Rightarrow> throws e
       | Yields l \<Rightarrow>
           (case win_sessionStorage w of
              Throws e \<Rightarrow> throws e
            | Yields s \<Rightarrow>
                (case win_indexedDB w of
                   Throws e \<Rightarrow> throws e
                 | Yields i \<Rightarrow>
                     returns (JObj [(''localStorage'', JBool (truthy l)),
                                    (''sessionStorage'', JBool (truthy s)),
                                    (''indexedDB'', JBool (truthy i))])))))"

section \<open>Font support\<close>

subsection \<open>Elements\<close>

text \<open>
  \<^verbatim>\<open>document.createElement\<close> puts a new element, outside the tree, into the store;
  assigning to \<^verbatim>\<open>s.style.k\<close> or \<^verbatim>\<open>s.innerHTML\<close> updates the element in place;
  \<^verbatim>\<open>p.appendChild(c)\<close> makes an element that has no parent yet the last child of \<open>p\<close>.
\<close>

definition createElement :: "string \<Rightarrow> dom \<Rightarrow> nat \<times> dom" where
  "createElement tag d =
    (length (nodes d),
     d\<lparr>nodes := nodes d @ [\<lparr>tagName = tag, style = [], innerHTML = [], children = []\<rparr>]\<rparr>)"

definition set_style :: "nat \<Rightarrow> string \<times> string \<Rightarrow> dom \<Rightarrow> dom" where
  "set_style e kv d =
    d\<lparr>nodes := (nodes d)[e := (nodes d ! e)\<lparr>style := AList.update (fst kv) (snd kv) (style (nodes d ! e))\<rparr>]\<rparr>"

definition set_innerHTML :: "nat \<Rightarrow> string \<Rightarrow> dom \<Rightarrow> dom" where
  "set_innerHTML e v d = d\<lparr>nodes := (nodes d)[e := (nodes d ! e)\<lparr>innerHTML := v\<rparr>]\<rparr>"

definition appendChild :: "nat \<Rightarrow> nat \<Rightarrow> dom \<Rightarrow> dom" where
  "appendChild p c d =
    d\<lparr>nodes := (nodes d)[p := (nodes d ! p)\<lparr>children := children (nodes d ! p) @ [c]\<rparr>]\<rparr>"

text \<open>\<^verbatim>\<open>document.getElementsByTagName('body')[0]\<close>: the body element of the tree, if any.\<close>

definition getBody :: "dom \<Rightarrow> nat option" where
  "getBody d = (case body d of
                  None \<Rightarrow> None
                | Some h \<Rightarrow> if h < length (nodes d) then Some h else None)"

subsection \<open>The constants of \<^verbatim>\<open>fontSupport\<close>\<close>

definition baseFonts :: "string list" where
  "baseFonts = [''monospace'', ''sans-serif'', ''serif'']"

definition fontList :: "string list" where
  "fontList = [
    ''Andale Mono'', ''Arial'', ''Arial Black'', ''Arial Hebrew'', ''Arial MT'',
    ''Arial Narrow'', ''Arial Rounded MT Bold'', ''Arial Unicode MS'',
    ''Bitstream Vera Sans Mono'', ''Book Antiqua'', ''Bookman Old Style'', ''Calibri'',
    ''Cambria'', ''Cambria Math'', ''Century'', ''Century Gothic'', ''Century Schoolbook'',
    ''Comic Sans'', ''Comic Sans MS'', ''Consolas'', ''Courier'', ''Courier New'', ''Geneva'',
    ''Georgia'', ''Helvetica'', ''Helvetica Neue'', ''Impact'', ''Lucida Bright'',
    ''Lucida Calligraphy'', ''Lucida Console'', ''Lucida Fax'', ''LUCIDA GRANDE'',
    ''Lucida Handwriting'', ''Lucida Sans'', ''Lucida Sans Typewriter'',
    ''Lucida Sans Unicode'', ''Microsoft Sans Serif'', ''Monaco'', ''Monotype Corsiva'',
    ''MS Gothic'', ''MS Outlook'', ''MS PGothic'', ''MS Reference Sans Serif'',
    ''MS Sans Serif'', ''MS Serif'', ''MYRIAD'', ''MYRIAD PRO'', ''Palatino'',
    ''Palatino Linotype'', ''Segoe Print'', ''Segoe Script'', ''Segoe UI'', ''Segoe UI Light'',
    ''Segoe UI Semibold'', ''Segoe UI Symbol'', ''Tahoma'', ''Times'', ''Times New Roman'',
    ''Times New Roman PS'', ''Trebuchet MS'', ''Verdana'', ''Wingdings'', ''Wingdings 2'',
    ''Wingdings 3'', ''Abadi MT Condensed Light'', ''Academy Engraved LET'',
    ''ADOBE CASLON PRO'', ''Adobe Garamond'', ''ADOBE GARAMOND PRO'', ''Agency FB'',
    ''Aharoni'', ''Albertus Extra Bold'', ''Albertus Medium'', ''Algerian'', ''Amazone BT'',
    ''American Typewriter'', ''American Typewriter Condensed'', ''AmerType Md BT'',
    ''Andalus'', ''Angsana New'', ''AngsanaUPC'', ''Antique Olive'', ''Aparajita'',
    ''Apple Chancery'', ''Apple Color Emoji'', ''Apple SD Gothic Neo'', ''Arabic Typesetting'',
    ''ARCHER'', ''ARNO PRO'', ''Arrus BT'', ''Aurora Cn BT'', ''AvantGarde Bk BT'',
    ''AvantGarde Md BT'', ''AVENIR'', ''Ayuthaya'', ''Bandy'', ''Bangla Sangam MN'',
    ''Bank Gothic'', ''BankGothic Md BT'', ''Baskerville'', ''Baskerville Old Face'',
    ''Batang'', ''BatangChe'', ''Bauer Bodoni'', ''Bauhaus 93'', ''Bazooka'', ''Bell MT'',
    ''Bembo'', ''Benguiat Bk BT'', ''Berlin Sans FB'', ''Berlin Sans FB Demi'',
    ''Bernard MT Condensed'', ''BernhardFashion BT'', ''BernhardMod BT'', ''Big Caslon'',
    ''BinnerD'', ''Blackadder ITC'', ''BlairMdITC TT'', ''Bodoni 72'', ''Bodoni 72 Oldstyle'',
    ''Bodoni 72 Smallcaps'', ''Bodoni MT'', ''Bodoni MT Black'', ''Bodoni MT Condensed'',
    ''Bodoni MT Poster Compressed'', ''Bookshelf Symbol 7'', ''Boulder'', ''Bradley Hand'',
    ''Bradley Hand ITC'', ''Bremen Bd BT'', ''Britannic Bold'', ''Broadway'',
    ''Browallia New'', ''BrowalliaUPC'', ''Brush Script MT'', ''Californian FB'',
    ''Calisto MT'', ''Calligrapher'', ''Candara'', ''CaslonOpnface BT'', ''Castellar'',
    ''Centaur'', ''Cezanne'', ''CG Omega'', ''CG Times'', ''Chalkboard'', ''Chalkboard SE'',
    ''Chalkduster'', ''Charlesworth'', ''Charter Bd BT'', ''Charter BT'', ''Chaucer'',
    ''ChelthmITC Bk BT'', ''Chiller'', ''Clarendon'', ''Clarendon Condensed'',
    ''CloisterBlack BT'', ''Cochin'', ''Colonna MT'', ''Constantia'', ''Cooper Black'',
    ''Copperplate'', ''Copperplate Gothic'', ''Copperplate Gothic Bold'',
    ''Copperplate Gothic Light'', ''CopperplGoth Bd BT'', ''Corbel'', ''Cordia New'',
    ''CordiaUPC'', ''Cornerstone'', ''Coronet'', ''Cuckoo'', ''Curlz MT'', ''DaunPenh'',
    ''Dauphin'', ''David'', ''DB LCD Temp'', ''DELICIOUS'', ''Denmark'', ''DFKai-SB'',
    ''Didot'', ''DilleniaUPC'', ''DIN'', ''DokChampa'', ''Dotum'', ''DotumChe'', ''Ebrima'',
    ''Edwardian Script ITC'', ''Elephant'', ''English 111 Vivace BT'', ''Engravers MT'',
    ''EngraversGothic BT'', ''Eras Bold ITC'', ''Eras Demi ITC'', ''Eras Light ITC'',
    ''Eras Medium ITC'', ''EucrosiaUPC'', ''Euphemia'', ''Euphemia UCAS'', ''EUROSTILE'',
    ''Exotc350 Bd BT'', ''FangSong'', ''Felix Titling'', ''Fixedsys'', ''FONTIN'',
    ''Footlight MT Light'', ''Forte'', ''FrankRuehl'', ''Fransiscan'', ''Freefrm721 Blk BT'',
    ''FreesiaUPC'', ''Freestyle Script'', ''French Script MT'', ''FrnkGothITC Bk BT'',
    ''Fruitger'', ''FRUTIGER'', ''Futura'', ''Futura Bk BT'', ''Futura Lt BT'',
    ''Futura Md BT'', ''Futura ZBlk BT'', ''FuturaBlack BT'', ''Gabriola'', ''Galliard BT'',
    ''Gautami'', ''Geeza Pro'', ''Geometr231 BT'', ''Geometr231 Hv BT'', ''Geometr231 Lt BT'',
    ''GeoSlab 703 Lt BT'', ''GeoSlab 703 XBd BT'', ''Gigi'', ''Gill Sans'', ''Gill Sans MT'',
    ''Gill Sans MT Condensed'', ''Gill Sans MT Ext Condensed Bold'', ''Gill Sans Ultra Bold'',
    ''Gill Sans Ultra Bold Condensed'', ''Gisha'', ''Gloucester MT Extra Condensed'',
    ''GOTHAM'', ''GOTHAM BOLD'', ''Goudy Old Style'', ''Goudy Stout'', ''GoudyHandtooled BT'',
    ''GoudyOLSt BT'', ''Gujarati Sangam MN'', ''Gulim'', ''GulimChe'', ''Gungsuh'',
    ''GungsuhChe'', ''Gurmukhi MN'', ''Haettenschweiler'', ''Harlow Solid Italic'',
    ''Harrington'', ''Heather'', ''Heiti SC'', ''Heiti TC'', ''HELV'', ''Herald'',
    ''High Tower Text'', ''Hiragino Kaku Gothic ProN'', ''Hiragino Mincho ProN'',
    ''Hoefler Text'', ''Humanst 521 Cn BT'', ''Humanst521 BT'', ''Humanst521 Lt BT'',
    ''Imprint MT Shadow'', ''Incised901 Bd BT'', ''Incised901 BT'', ''Incised901 Lt BT'',
    ''INCONSOLATA'', ''Informal Roman'', ''Informal011 BT'', ''INTERSTATE'', ''IrisUPC'',
    ''Iskoola Pota'', ''JasmineUPC'', ''Jazz LET'', ''Jenson'', ''Jester'', ''Jokerman'',
    ''Juice ITC'', ''Kabel Bk BT'', ''Kabel Ult BT'', ''Kailasa'', ''KaiTi'', ''Kalinga'',
    ''Kannada Sangam MN'', ''Kartika'', ''Kaufmann Bd BT'', ''Kaufmann BT'', ''Khmer UI'',
    ''KodchiangUPC'', ''Kokila'', ''Korinna BT'', ''Kristen ITC'', ''Krungthep'',
    ''Kunstler Script'', ''Lao UI'', ''Latha'', ''Leelawadee'', ''Letter Gothic'',
    ''Levenim MT'', ''LilyUPC'', ''Lithograph'', ''Lithograph Light'', ''Long Island'',
    ''Lydian BT'', ''Magneto'', ''Maiandra GD'', ''Malayalam Sangam MN'', ''Malgun Gothic'',
    ''Mangal'', ''Marigold'', ''Marion'', ''Marker Felt'', ''Market'', ''Marlett'',
    ''Matisse ITC'', ''Matura MT Script Capitals'', ''Meiryo'', ''Meiryo UI'',
    ''Microsoft Himalaya'', ''Microsoft JhengHei'', ''Microsoft New Tai Lue'',
    ''Microsoft PhagsPa'', ''Microsoft Tai Le'', ''Microsoft Uighur'', ''Microsoft YaHei'',
    ''Microsoft Yi Baiti'', ''MingLiU'', ''MingLiU_HKSCS'', ''MingLiU_HKSCS-ExtB'',
    ''MingLiU-ExtB'', ''Minion'', ''Minion Pro'', ''Miriam'', ''Miriam Fixed'', ''Mistral'',
    ''Modern'', ''Modern No. 20'', ''Mona Lisa Solid ITC TT'', ''Mongolian Baiti'', ''MONO'',
    ''MoolBoran'', ''Mrs Eaves'', ''MS LineDraw'', ''MS Mincho'', ''MS PMincho'',
    ''MS Reference Specialty'', ''MS UI Gothic'', ''MT Extra'', ''MUSEO'', ''MV Boli'',
    ''Nadeem'', ''Narkisim'', ''NEVIS'', ''News Gothic'', ''News GothicMT'', ''NewsGoth BT'',
    ''Niagara Engraved'', ''Niagara Solid'', ''Noteworthy'', ''NSimSun'', ''Nyala'',
    ''OCR A Extended'', ''Old Century'', ''Old English Text MT'', ''Onyx'', ''Onyx BT'',
    ''OPTIMA'', ''Oriya Sangam MN'', ''OSAKA'', ''OzHandicraft BT'', ''Palace Script MT'',
    ''Papyrus'', ''Parchment'', ''Party LET'', ''Pegasus'', ''Perpetua'',
    ''Perpetua Titling MT'', ''PetitaBold'', ''Pickwick'', ''Plantagenet Cherokee'',
    ''Playbill'', ''PMingLiU'', ''PMingLiU-ExtB'', ''Poor Richard'', ''Poster'',
    ''PosterBodoni BT'', ''PRINCETOWN LET'', ''Pristina'', ''PTBarnum BT'', ''Pythagoras'',
    ''Raavi'', ''Rage Italic'', ''Ravie'', ''Ribbon131 Bd BT'', ''Rockwell'',
    ''Rockwell Condensed'', ''Rockwell Extra Bold'', ''Rod'', ''Roman'', ''Sakkal Majalla'',
    ''Santa Fe LET'', ''Savoye LET'', ''Sceptre'', ''Script'', ''Script MT Bold'',
    ''SCRIPTINA'', ''Serifa'', ''Serifa BT'', ''Serifa Th BT'', ''ShelleyVolante BT'',
    ''Sherwood'', ''Shonar Bangla'', ''Showcard Gothic'', ''Shruti'', ''Signboard'',
    ''SILKSCREEN'', ''SimHei'', ''Simplified Arabic'', ''Simplified Arabic Fixed'', ''SimSun'',
    ''SimSun-ExtB'', ''Sinhala Sangam MN'', ''Sketch Rockwell'', ''Skia'', ''Small Fonts'',
    ''Snap ITC'', ''Snell Roundhand'', ''Socket'', ''Souvenir Lt BT'', ''Staccato222 BT'',
    ''Steamer'', ''Stencil'', ''Storybook'', ''Styllo'', ''Subway'', ''Swis721 BlkEx BT'',
    ''Swiss911 XCm BT'', ''Sylfaen'', ''Synchro LET'', ''System'', ''Tamil Sangam MN'',
    ''Technical'', ''Teletype'', ''Telugu Sangam MN'', ''Tempus Sans ITC'', ''Terminal'',
    ''Thonburi'', ''Traditional Arabic'', ''Trajan'', ''TRAJAN PRO'', ''Tristan'', ''Tubular'',
    ''Tunga'', ''Tw Cen MT'', ''Tw Cen MT Condensed'', ''Tw Cen MT Condensed Extra Bold'',
    ''TypoUpright BT'', ''Unicorn'', ''Univers'', ''Univers CE 55 Medium'',
    ''Univers Condensed'', ''Utsaah'', ''Vagabond'', ''Vani'', ''Vijaya'', ''Viner Hand ITC'',
    ''VisualUI'', ''Vivaldi'', ''Vladimir Script'', ''Vrinda'', ''Westminster'', ''WHITNEY'',
    ''Wide Latin'', ''ZapfEllipt BT'', ''ZapfHumnst BT'', ''ZapfHumnst Dm BT'', ''Zapfino'',
    ''Zurich BlkEx BT'', ''Zurich Ex BT'', ''ZWAdobeF'']"

definition testString :: string where
  "testString = ''mmmmmmmmmmlli''"

definition testSize :: string where
  "testSize = ''72px''"

subsection \<open>The probe spans\<close>

text \<open>The style assignments of \<^verbatim>\<open>createSpan\<close>, in the order of the source.\<close>

definition spanStyle :: "(string \<times> string) list" where
  "spanStyle =
    [(''position'', ''absolute''), (''left'', ''-9999px''), (''fontSize'', testSize),
     (''fontStyle'', ''normal''), (''fontWeight'', ''normal''), (''letterSpacing'', ''normal''),
     (''lineBreak'', ''auto''), (''lineHeight'', ''normal''), (''textTransform'', ''none''),
     (''textAlign'', ''left''), (''textDecoration'', ''none''), (''textShadow'', ''none''),
     (''whiteSpace'', ''normal''), (''wordBreak'', ''normal''), (''wordSpacing'', ''normal'')]"

definition createSpan :: "dom \<Rightarrow> nat \<times> dom" where
  "createSpan d =
    (let (s, d1) = createElement ''span'' d;
         d2 = fold (set_style s) spanStyle d1;
         d3 = set_innerHTML s testString d2
     in (s, d3))"

text \<open>The template \<^verbatim>\<open>`'${fontToDetect}',${baseFont}`\<close>.\<close>

definition fontFamily_of :: "string \<Rightarrow> string \<Rightarrow> string" where
  "fontFamily_of fontToDetect baseFont =
    [CHR 0x27] @ fontToDetect @ [CHR 0x27] @ '','' @ baseFont"

definition createSpanWithFonts :: "string \<Rightarrow> string \<Rightarrow> dom \<Rightarrow> nat \<times> dom" where
  "createSpanWithFonts fontToDetect baseFont d =
    (let (s, d1) = createSpan d
     in (s, set_style s (''fontFamily'', fontFamily_of fontToDetect baseFont) d1))"

text \<open>
  The loop of \<^verbatim>\<open>initializeBaseFontsSpans\<close> over the base fonts still to do; \<open>spans\<close> is
  the array built so far.
\<close>

fun baseFontsSpans_loop :: "nat \<Rightarrow> string list \<Rightarrow> nat list \<Rightarrow> dom \<Rightarrow> nat list \<times> dom" where
  "baseFontsSpans_loop baseFontsDiv [] spans d = (spans, d)"
| "baseFontsSpans_loop baseFontsDiv (b # bs) spans d =
    (let (s, d1) = createSpan d;
         d2 = set_style s (''fontFamily'', b) d1;
         d3 = appendChild baseFontsDiv s d2
     in baseFontsSpans_loop baseFontsDiv bs (spans @ [s]) d3)"

definition initializeBaseFontsSpans :: "nat \<Rightarrow> dom \<Rightarrow> nat list \<times> dom" where
  "initializeBaseFontsSpans baseFontsDiv d = baseFontsSpans_loop baseFontsDiv baseFonts [] d"

text \<open>
  The two loops of \<^verbatim>\<open>initializeFontsSpans\<close>: the inner one over the base fonts for one
  candidate, the outer one over the candidates. \<open>spans\<close> is the object that maps a font
  name to its array of spans.
\<close>

fun fontSpans_loop :: "nat \<Rightarrow> string \<Rightarrow> string list \<Rightarrow> nat list \<Rightarrow> dom \<Rightarrow> nat list \<times> dom" where
  "fontSpans_loop fontsDiv f [] fontSpans d = (fontSpans, d)"
| "fontSpans_loop fontsDiv f (b # bs) fontSpans d =
    (let (s, d1) = createSpanWithFonts f b d;
         d2 = appendChild fontsDiv s d1
     in fontSpans_loop fontsDiv f bs (fontSpans @ [s]) d2)"

fun fontsSpans_loop ::
  "nat \<Rightarrow> string list \<Rightarrow> (string \<rightharpoonup> nat list) \<Rightarrow> dom \<Rightarrow> (string \<rightharpoonup> nat list) \<times> dom" where
  "fontsSpans_loop fontsDiv [] spans d = (spans, d)"
| "fontsSpans_loop fontsDiv (f # fs) spans d =
    (let (fontSpans, d1) = fontSpans_loop fontsDiv f baseFonts [] d
     in fontsSpans_loop fontsDiv fs (spans(f \<mapsto> fontSpans)) d1)"

definition initializeFontsSpans :: "nat \<Rightarrow> dom \<Rightarrow> (string \<rightharpoonup> nat list) \<times> dom" where
  "initializeFontsSpans fontsDiv d = fontsSpans_loop fontsDiv fontList Map.empty d"

subsection \<open>Measuring\<close>

type_synonym layout = "dom \<Rightarrow> nat \<Rightarrow> int \<times> int"

definition offsetWidth :: "layout \<Rightarrow> dom \<Rightarrow> nat \<Rightarrow> int" where
  "offsetWidth L d e = fst (L d e)"

definition offsetHeight :: "layout \<Rightarrow> dom \<Rightarrow> nat \<Rightarrow> int" where
  "offsetHeight L d e = snd (L d e)"

text \<open>
  The loop that fills \<^verbatim>\<open>defaultWidth\<close> and \<^verbatim>\<open>defaultHeight\<close>, over the indices still
  to do. Reading a property of an array element that is not there is the \<open>TypeError\<close>.
\<close>

fun defaults_loop ::
  "layout \<Rightarrow> dom \<Rightarrow> nat list \<Rightarrow> nat list \<Rightarrow> (string \<rightharpoonup> int) \<times> (string \<rightharpoonup> int) \<Rightarrow>
   fault + (string \<rightharpoonup> int) \<times> (string \<rightharpoonup> int)" where
  "defaults_loop L d baseFontsSpans [] wh = Inr wh"
| "defaults_loop L d baseFontsSpans (idx # idxs) wh =
    (if idx < length baseFontsSpans then
       defaults_loop L d baseFontsSpans idxs
         ((fst wh)(baseFonts ! idx \<mapsto> offsetWidth L d (baseFontsSpans ! idx)),
          (snd wh)(baseFonts ! idx \<mapsto> offsetHeight L d (baseFontsSpans ! idx)))
     else Inl (TypeError ''baseFontsSpans[idx].offsetWidth''))"

text \<open>
  The loop of \<^verbatim>\<open>isFontAvailable\<close> over the indices still to do: it returns at the first
  base font for which \<^verbatim>\<open>d\<close> is true, and \<^verbatim>\<open>d\<close>, which is false, after the last.
  \<^verbatim>\<open>!==\<close> of a number and a default that was never recorded is true.
\<close>

fun isFontAvailable_loop ::
  "layout \<Rightarrow> dom \<Rightarrow> (string \<rightharpoonup> int) \<Rightarrow> (string \<rightharpoonup> int) \<Rightarrow> nat list \<Rightarrow> nat list \<Rightarrow> fault + bool" where
  "isFontAvailable_loop L d defaultWidth defaultHeight fontSpans [] = Inr False"
| "isFontAvailable_loop L d defaultWidth defaultHeight fontSpans (i # is) =
    (if i < length fontSpans then
       (if Some (offsetWidth L d (fontSpans ! i)) \<noteq> defaultWidth (baseFonts ! i) \<or>
           Some (offsetHeight L d (fontSpans ! i)) \<noteq> defaultHeight (baseFonts ! i)
        then Inr True
        else isFontAvailable_loop L d defaultWidth defaultHeight fontSpans is)
     else Inl (TypeError ''fontSpans[i].offsetWidth''))"

definition isFontAvailable ::
  "layout \<Rightarrow> dom \<Rightarrow> (string \<rightharpoonup> int) \<Rightarrow> (string \<rightharpoonup> int) \<Rightarrow> nat list \<Rightarrow> fault + bool" where
  "isFontAvailable L d defaultWidth defaultHeight fontSpans =
    isFontAvailable_loop L d defaultWidth defaultHeight fontSpans [0..<length baseFonts]"

text \<open>The last loop of \<^verbatim>\<open>fontSupport\<close>, over the candidates still to do.\<close>

fun available_loop ::
  "layout \<Rightarrow> dom \<Rightarrow> (string \<rightharpoonup> int) \<Rightarrow> (string \<rightharpoonup> int) \<Rightarrow> (string \<rightharpoonup> nat list) \<Rightarrow>
   string list \<Rightarrow> string list \<Rightarrow> fault + string list" where
  "available_loop L d defaultWidth defaultHeight fontsSpans [] available = Inr available"
| "available_loop L d defaultWidth defaultHeight fontsSpans (f # fs) available =
    (case fontsSpans f of
       None \<Rightarrow> Inl (TypeError ''fontSpans[i]'')
     | Some fontSpans \<Rightarrow>
         (case isFontAvailable L d defaultWidth defaultHeight fontSpans of
            Inl e \<Rightarrow> Inl e
          | Inr a \<Rightarrow>
              available_loop L d defaultWidth defaultHeight fontsSpans fs
                (if a then available @ [f] else available)))"

subsection \<open>The probe\<close>

text \<open>
  \<^verbatim>\<open>fontSupport\<close> on a document: the list it returns (or the fault it raises) and the
  document it leaves. Nothing in it removes an element.
\<close>

definition fontSupport_on :: "layout \<Rightarrow> dom \<Rightarrow> (fault + string list) \<times> dom" where
  "fontSupport_on L d =
    (let h = getBody d;
         (baseFontsDiv, d1) = createElement ''div'' d;
         (fontsDiv, d2) = createElement ''div'' d1;
         (baseFontsSpans, d3) = initializeBaseFontsSpans baseFontsDiv d2
     in case h of
          None \<Rightarrow> (Inl (TypeError ''h.appendChild''), d3)
        | Some hb \<Rightarrow>
            (let d4 = appendChild hb baseFontsDiv d3
             in case defaults_loop L d4 baseFontsSpans [0..<length baseFonts] (Map.empty, Map.empty) of
                  Inl e \<Rightarrow> (Inl e, d4)
                | Inr (defaultWidth, defaultHeight) \<Rightarrow>
                    (let (fontsSpans, d5) = initializeFontsSpans fontsDiv d4;
                         d6 = appendChild hb fontsDiv d5
                     in (available_loop L d6 defaultWidth defaultHeight fontsSpans fontList [], d6))))"

text \<open>
  \<^verbatim>\<open>fontSupport\<close> has no guard either: its first statement that reads a global is
  \<^verbatim>\<open>document.getElementsByTagName('body')\<close>. Besides its outcome it gives the host
  with the document as the call left it.
\<close>

definition fontSupport :: "host \<Rightarrow> outcome \<times> host" where
  "fontSupport h =
    (case document h of
       None \<Rightarrow> (throws (ReferenceError ''document''), h)
     | Some doc \<Rightarrow>
         (let (r, d') = fontSupport_on (doc_layout doc) (doc_dom doc)
          in (([], (case r of Inl e \<Rightarrow> Inl e | Inr fs \<Rightarrow> Inr (JArr (map JStr fs)))),
              h\<lparr>document := Some (doc\<lparr>doc_dom := d'\<rparr>)\<rparr>)))"

section \<open>The queries of the class\<close>

datatype query =
    IsNode | IsBrowser | IsMobile | HasWebGL | HasWebVR | HasMIDI | HasTouch | DoNotTrack
  | Orientation | GpuInfo | BrowserInfo | PlatformInfo | AudioSupport | VideoSupport
  | PluginSupport | StorageSupport | FontSupport

fun run :: "query \<Rightarrow> host \<Rightarrow> outcome" where
  "run IsNode h = isNode h"
| "run IsBrowser h = returns (JBool (isBrowser h))"
| "run IsMobile h = isMobile h"
| "run HasWebGL h = hasWebGL h"
| "run HasWebVR h = hasWebVR h"
| "run HasMIDI h = hasMIDI h"
| "run HasTouch h = hasTouch h"
| "run DoNotTrack h = doNotTrack h"
| "run Orientation h = orientation h"
| "run GpuInfo h = gpuInfo h"
| "run BrowserInfo h = browserInfo h"
| "run PlatformInfo h = platformInfo h"
| "run AudioSupport h = audioSupport h"
| "run VideoSupport h = videoSupport h"
| "run PluginSupport h = pluginSupport h"
| "run StorageSupport h = storageSupport h"
| "run FontSupport h = fst (fontSupport h)"

text \<open>
  The queries whose first statement is the guard
  \<^verbatim>\<open>if (!this.isBrowser()) return this._browserErr()\<close>.
\<close>

definition guarded_queries :: "query list" where
  "guarded_queries =
    [IsMobile, HasWebGL, HasWebVR, HasMIDI, HasTouch, DoNotTrack, Orientation, BrowserInfo,
     AudioSupport, VideoSupport, PluginSupport, StorageSupport]"

section \<open>Sample hosts\<close>

text \<open>A process host: no window, no document, no navigator.\<close>

definition node_host :: host where
  "node_host =
    \<lparr>window = None, document = None, navigator = None,
     process = Some \<lparr>proc_version = JStr ''v10.15.0'', proc_platform = JStr ''linux'',
                      proc_env = JObj [(''HOME'', JStr ''/root'')]\<rparr>,
     require_os = Some \<lparr>os_arch = JStr ''x64'', os_type = JStr ''Linux'',
                         os_release = JStr ''4.15.0'', os_cpus = JArr [],
                         os_freemem = JNum 1024, os_totalmem = JNum 4096,
                         os_homedir = JStr ''/root'', os_hostname = JStr ''box'',
                         os_userInfo = JObj [(''username'', JStr ''root'')],
                         os_networkInterfaces = JObj []\<rparr>\<rparr>"

text \<open>A desktop browser, with the client-identification string, the window and the document to be chosen.\<close>

definition sample_navigator :: "string \<Rightarrow> navigator_obj" where
  "sample_navigator ua =
    \<lparr>nav_userAgent = ua, nav_appName = JStr ''Netscape'', nav_appVersion = JStr ''5.0 (Windows)'',
     nav_doNotTrack = JNull, nav_getVRDisplays = JUndefined, nav_requestMIDIAccess = JFun,
     nav_plugins = Some [], nav_oscpu = JUndefined, nav_hardwareConcurrency = JNum 4,
     nav_platform = JStr ''Win32''\<rparr>"

definition sample_window :: window_obj where
  "sample_window =
    \<lparr>win_WebGLRenderingContext = JFun, win_has_ontouchstart = False,
     win_DocumentTouch = JUndefined, win_matchMedia = Some (\<lambda>q. JBool False),
     win_orientation = JUndefined, win_localStorage = Yields (JObj []),
     win_sessionStorage = Yields (JObj []), win_indexedDB = Yields (JObj [])\<rparr>"

definition sample_dom :: dom where
  "sample_dom =
    \<lparr>nodes = [\<lparr>tagName = ''body'', style = [], innerHTML = [], children = []\<rparr>], body = Some 0\<rparr>"

definition sample_canPlayType :: "string \<Rightarrow> jsval" where
  "sample_canPlayType t =
    (if prefix_of ''audio/ogg'' t then JStr ''probably''
     else if prefix_of ''video/webm'' t then JStr ''maybe''
     else JStr [])"

definition sample_document :: document_obj where
  "sample_document =
    \<lparr>doc_dom = sample_dom, doc_layout = (\<lambda>d e. (0, 0)), canvas_getContext = (\<lambda>kind. None),
     audio_canPlayType = Some sample_canPlayType, video_canPlayType = Some sample_canPlayType,
     video_has_poster = True, track_has_src = True, doc_instanceof_DocumentTouch = False\<rparr>"

text \<open>
  A layout engine that gives a span the width of its font-family string, in tenths of its
  72 pixels of height: a candidate over a baseline is wider than the baseline alone.
\<close>

definition family_width :: "element \<Rightarrow> int \<times> int" where
  "family_width e =
    (int (length (case map_of (style e) ''fontFamily'' of Some v \<Rightarrow> v | None \<Rightarrow> [])), 72)"

definition widening_document :: document_obj where
  "widening_document = sample_document\<lparr>doc_layout := (\<lambda>d e. family_width (nodes d ! e))\<rparr>"

text \<open>A document with a paragraph in its body.\<close>

definition page_dom :: dom where
  "page_dom =
    \<lparr>nodes = [\<lparr>tagName = ''html'', style = [], innerHTML = [], children = [1]\<rparr>,
              \<lparr>tagName = ''body'', style = [], innerHTML = [], children = [2]\<rparr>,
              \<lparr>tagName = ''p'', style = [], innerHTML = ''hello'', children = []\<rparr>],
     body = Some 1\<rparr>"

definition page_document :: document_obj where
  "page_document = sample_document\<lparr>doc_dom := page_dom\<rparr>"

definition browser_host :: "string \<Rightarrow> window_obj \<Rightarrow> document_obj \<Rightarrow> host" where
  "browser_host ua w d =
    \<lparr>window = Some w, document = Some d, navigator = Some (sample_navigator ua),
     process = None, require_os = None\<rparr>"

definition firefox_ua :: string where
  "firefox_ua = ''Mozilla/5.0 (Windows NT 10.0; Win64; x64; rv:60.0) Gecko/20100101 Firefox/60.0''"

definition ie11_ua :: string where
  "ie11_ua = ''Mozilla/5.0 (Windows NT 6.1; WOW64; Trident/7.0; rv:11.0) like Gecko''"

text \<open>
  A client string that contains \<^verbatim>\<open>Trident\<close> and the token \<^verbatim>\<open>rv:11.0\<close> after an
  \<^verbatim>\<open>MSIE\<close> token.
\<close>

definition msie_ua :: string where
  "msie_ua = ''Mozilla/5.0 (compatible; MSIE 10.0; Windows NT 6.1; Trident/7.0; rv:11.0) like Gecko''"

definition opera_ua :: "string \<Rightarrow> string" where
  "opera_ua n =
    ''Mozilla/5.0 (Windows NT 10.0; Win64; x64) AppleWebKit/537.36 (KHTML, like Gecko) Chrome/56.0.2924.87 Safari/537.36 OPR/'' @ n"

section \<open>Notions used in the statements\<close>

text \<open>The property \<open>k\<close> of the record a query returned, if it returned one that has it.\<close>

definition field :: "string \<Rightarrow> outcome \<Rightarrow> jsval option" where
  "field k out = (case snd out of Inr (JObj ps) \<Rightarrow> map_of ps k | _ \<Rightarrow> None)"

text \<open>
  The codec fields of \<^verbatim>\<open>audioSupport\<close> and \<^verbatim>\<open>videoSupport\<close>, each with the type string the
  source passes to \<^verbatim>\<open>canPlayType\<close> for it.
\<close>

definition audio_codecs :: "(string \<times> string) list" where
  \<open>audio_codecs =
    [(''mp3'', ''audio/mpeg;''), (''vorbis'', ''audio/ogg; codecs="vorbis"''),
     (''wav'', ''audio/wav; codecs="1"''), (''aac'', ''audio/mp4; codecs="mp4a.40.2"'')]\<close>

definition video_codecs :: "(string \<times> string) list" where
  \<open>video_codecs =
    [(''webm'', ''video/webm; codecs="vp8, vorbis"''),
     (''h264'', ''video/mp4; codecs="avc1.42E01E, mp4a.40.2"''),
     (''theora'', ''video/ogg; codecs="theora"'')]\<close>

text \<open>
  A codec-support predicate as the platform types it: \<^verbatim>\<open>canPlayType\<close> answers with the
  empty string, \<^verbatim>\<open>"maybe"\<close> or \<^verbatim>\<open>"probably"\<close>.
\<close>

definition conforming :: "(string \<Rightarrow> jsval) \<Rightarrow> bool" where
  "conforming canPlayType =
    (\<forall>t. canPlayType t = JStr [] \<or> canPlayType t = JStr ''maybe'' \<or> canPlayType t = JStr ''probably'')"

definition support_level :: "jsval \<Rightarrow> bool" where
  "support_level v = (v = JStr ''no'' \<or> v = JStr ''maybe'' \<or> v = JStr ''probably'')"

text \<open>
  The probe elements as \<^verbatim>\<open>fontSupport\<close> leaves them: the span of \<^verbatim>\<open>createSpan\<close>, the span
  of a baseline family, and the span of a candidate over a baseline family.
\<close>

definition probeSpan :: element where
  "probeSpan = \<lparr>tagName = ''span'', style = spanStyle, innerHTML = testString, children = []\<rparr>"

definition baseSpan :: "string \<Rightarrow> element" where
  "baseSpan b = probeSpan\<lparr>style := spanStyle @ [(''fontFamily'', b)]\<rparr>"

definition fontSpan :: "string \<Rightarrow> string \<Rightarrow> element" where
  "fontSpan f b = probeSpan\<lparr>style := spanStyle @ [(''fontFamily'', fontFamily_of f b)]\<rparr>"

definition add_children :: "nat list \<Rightarrow> element \<Rightarrow> element" where
  "add_children cs e = e\<lparr>children := children e @ cs\<rparr>"

definition container :: "nat list \<Rightarrow> element" where
  "container cs = \<lparr>tagName = ''div'', style = [], innerHTML = [], children = cs\<rparr>"

text \<open>
  The document at the time the baseline spans are measured: the first container, with the
  three baseline spans, is a child of the body \<open>hb\<close>; the second container is still empty
  and outside the tree.
\<close>

definition baselined :: "nat \<Rightarrow> dom \<Rightarrow> dom" where
  "baselined hb d =
    (let n = length (nodes d)
     in d\<lparr>nodes :=
          (nodes d)[hb := add_children [n] (nodes d ! hb)] @
          [container [n + 2..<n + 2 + length baseFonts], container []] @
          map baseSpan baseFonts\<rparr>)"

text \<open>
  The document after \<^verbatim>\<open>fontSupport\<close> has run on \<open>d\<close> with the body \<open>hb\<close>: the old
  elements, the body with two more children, and after them the two containers, the three
  baseline spans and three spans for every candidate.
\<close>

definition probed :: "nat \<Rightarrow> dom \<Rightarrow> dom" where
  "probed hb d =
    (let n = length (nodes d)
     in d\<lparr>nodes :=
          (nodes d)[hb := add_children [n, n + 1] (nodes d ! hb)] @
          [container [n + 2..<n + 2 + length baseFonts],
           container [n + 2 + length baseFonts..<
                      n + 2 + length baseFonts + length baseFonts * length fontList]] @
          map baseSpan baseFonts @
          concat (map (\<lambda>f. map (fontSpan f) baseFonts) fontList)\<rparr>)"

text \<open>An element is in the tree when it is the body or a descendant of the body.\<close>

inductive attached :: "dom \<Rightarrow> nat \<Rightarrow> bool" for d :: dom where
  body: "getBody d = Some hb \<Longrightarrow> attached d hb"
| child: "attached d p \<Longrightarrow> p < length (nodes d) \<Longrightarrow> c \<in> set (children (nodes d ! p)) \<Longrightarrow>
          attached d c"

text \<open>
  A host measurement behaviour: for an element that is in the tree the layout engine
  reports the width and height that \<open>g\<close> assigns to it, whatever else is in the document.
  What it reports for an element outside the tree is left open.
\<close>

definition measures_by :: "layout \<Rightarrow> (element \<Rightarrow> int \<times> int) \<Rightarrow> bool" where
  "measures_by L g =
    (\<forall>d e. attached d e \<longrightarrow> e < length (nodes d) \<longrightarrow> L d e = g (nodes d ! e))"

text \<open>
  The span of candidate \<open>f\<close> over baseline \<open>b\<close> differs in width or in height from the
  span of \<open>b\<close> alone; a candidate is judged available when this holds for one of the
  baseline families.
\<close>

definition differs :: "(element \<Rightarrow> int \<times> int) \<Rightarrow> string \<Rightarrow> string \<Rightarrow> bool" where
  "differs g f b =
    (fst (g (fontSpan f b)) \<noteq> fst (g (baseSpan b)) \<or> snd (g (fontSpan f b)) \<noteq> snd (g (baseSpan b)))"

definition judged_available :: "(element \<Rightarrow> int \<times> int) \<Rightarrow> string \<Rightarrow> bool" where
  "judged_available g f = list_ex (differs g f) baseFonts"

text \<open>The children of the body of the host's document, in order.\<close>

definition body_children :: "host \<Rightarrow> nat list option" where
  "body_children h =
    (case document h of
       None \<Rightarrow> None
     | Some doc \<Rightarrow>
         (case getBody (doc_dom doc) of
            None \<Rightarrow> None
          | Some hb \<Rightarrow> Some (children (nodes (doc_dom doc) ! hb))))"

text \<open>
  No match of the expression \<open>m\<close> starts at a position inside \<open>pre\<close>, when \<open>pre\<close> is
  followed by \<open>s\<close>.
\<close>

fun none_before :: "(string \<Rightarrow> 'a option) \<Rightarrow> string \<Rightarrow> string \<Rightarrow> bool" where
  "none_before m [] s = True"
| "none_before m (c # cs) s = (m (c # cs @ s) = None \<and> none_before m cs s)"

text \<open>
  The same for an expression that starts with \<^verbatim>\<open>\b\<close> and a word character, \<open>prev\<close> being
  the character before \<open>pre\<close>: no match starts at a word boundary inside \<open>pre\<close>, and
  \<open>pre\<close> does not end with a word character, so that \<open>s\<close> starts at a word boundary.
\<close>

fun none_before_b :: "(string \<Rightarrow> 'a option) \<Rightarrow> char option \<Rightarrow> string \<Rightarrow> string \<Rightarrow> bool" where
  "none_before_b m prev [] s = (case prev of None \<Rightarrow> True | Some p \<Rightarrow> \<not> is_word p)"
| "none_before_b m prev (c # cs) s =
    ((case prev of None \<Rightarrow> m (c # cs @ s) = None | Some p \<Rightarrow> is_word p \<or> m (c # cs @ s) = None) \<and>
     none_before_b m (Some c) cs s)"

text \<open>The comma-joined clauses of a media query.\<close>

definition clauses :: "string \<Rightarrow> string list" where
  "clauses q = split_str (CHR '','') q"


section \<open>Outcomes of the guarded queries\<close>

lemma browserErr_simps: "fst browserErr = [''Averigua: this is not a browser'']" "snd browserErr = Inr JUndefined"
  by (simp_all add: browserErr_def)

lemma isBrowser_node_host: "\<not> isBrowser node_host"
  by (simp add: isBrowser_def node_host_def)

lemma isBrowser_browser_host: "isBrowser (browser_host ua w d)"
  by (simp add: isBrowser_def browser_host_def)

lemma guarded_outside_browser:
  assumes "\<not> isBrowser h" and "q \<in> set guarded_queries"
  shows "run q h = browserErr"
  using assms
  by (auto simp: guarded_queries_def isMobile_def hasWebGL_def hasWebVR_def hasMIDI_def hasTouch_def
      doNotTrack_def orientation_def browserInfo_def audioSupport_def videoSupport_def
      pluginSupport_def storageSupport_def)

lemma returns_simps: "fst (returns v) = []" "snd (returns v) = Inr v"
  by (simp_all add: returns_def)

lemma throws_simps: "fst (throws e) = []" "snd (throws e) = Inl e"
  by (simp_all add: throws_def)

lemma with_navigator_defined:
  assumes "\<And>n. snd (f n) \<noteq> Inr JUndefined"
  shows "snd (with_navigator h f) \<noteq> Inr JUndefined"
  using assms by (simp add: with_navigator_def throws_simps split: option.split)

lemma with_window_defined:
  assumes "\<And>w. snd (f w) \<noteq> Inr JUndefined"
  shows "snd (with_window h f) \<noteq> Inr JUndefined"
  using assms by (simp add: with_window_def throws_simps split: option.split)

lemma with_document_defined:
  assumes "\<And>d. snd (f d) \<noteq> Inr JUndefined"
  shows "snd (with_document h f) \<noteq> Inr JUndefined"
  using assms by (simp add: with_document_def throws_simps split: option.split)

lemmas with_defined = with_navigator_defined with_window_defined with_document_defined

lemma isMobile_defined: "isBrowser h \<Longrightarrow> snd (isMobile h) \<noteq> Inr JUndefined"
  by (simp add: isMobile_def with_defined returns_simps)

lemma hasWebGL_defined: "isBrowser h \<Longrightarrow> snd (hasWebGL h) \<noteq> Inr JUndefined"
  by (simp add: hasWebGL_def with_defined returns_simps)

lemma hasWebVR_defined: "isBrowser h \<Longrightarrow> snd (hasWebVR h) \<noteq> Inr JUndefined"
  by (simp add: hasWebVR_def with_defined returns_simps)

lemma hasMIDI_defined: "isBrowser h \<Longrightarrow> snd (hasMIDI h) \<noteq> Inr JUndefined"
  by (simp add: hasMIDI_def with_defined returns_simps)

lemma hasTouch_defined: "isBrowser h \<Longrightarrow> snd (hasTouch h) \<noteq> Inr JUndefined"
  by (simp add: hasTouch_def with_defined returns_simps throws_simps split: option.split)

lemma doNotTrack_defined: "isBrowser h \<Longrightarrow> snd (doNotTrack h) \<noteq> Inr JUndefined"
  by (simp add: doNotTrack_def with_defined returns_simps)

lemma orientation_defined: "isBrowser h \<Longrightarrow> snd (orientation h) \<noteq> Inr JUndefined"
  by (simp add: orientation_def with_defined returns_simps)

lemma browserInfo_defined: "isBrowser h \<Longrightarrow> snd (browserInfo h) \<noteq> Inr JUndefined"
  by (simp add: browserInfo_def with_defined returns_simps Let_def split: option.split prod.split)

lemma audioSupport_defined: "isBrowser h \<Longrightarrow> snd (audioSupport h) \<noteq> Inr JUndefined"
  by (simp add: audioSupport_def with_defined returns_simps split: option.split)

lemma videoSupport_defined: "isBrowser h \<Longrightarrow> snd (videoSupport h) \<noteq> Inr JUndefined"
  by (simp add: videoSupport_def with_defined returns_simps split: option.split)

lemma pluginSupport_defined: "isBrowser h \<Longrightarrow> snd (pluginSupport h) \<noteq> Inr JUndefined"
  by (simp add: pluginSupport_def with_defined returns_simps throws_simps split: option.split)

lemma storageSupport_defined: "isBrowser h \<Longrightarrow> snd (storageSupport h) \<noteq> Inr JUndefined"
  by (simp add: storageSupport_def with_defined returns_simps throws_simps split: getter.split)

lemma guarded_inside_browser:
  assumes "isBrowser h" and "q \<in> set guarded_queries"
  shows "snd (run q h) \<noteq> Inr JUndefined"
  using assms(2) isMobile_defined[OF assms(1)] hasWebGL_defined[OF assms(1)]
    hasWebVR_defined[OF assms(1)] hasMIDI_defined[OF assms(1)] hasTouch_defined[OF assms(1)]
    doNotTrack_defined[OF assms(1)] orientation_defined[OF assms(1)]
    browserInfo_defined[OF assms(1)] audioSupport_defined[OF assms(1)]
    videoSupport_defined[OF assms(1)] pluginSupport_defined[OF assms(1)]
    storageSupport_defined[OF assms(1)]
  unfolding guarded_queries_def by auto

section \<open>C1: a guarded query outside a visual host\<close>

text \<open>
  C1, as amended. For each of the twelve guarded queries (isMobile, hasWebGL, hasWebVR,
  hasMIDI, hasTouch, doNotTrack, orientation, browserInfo, audioSupport, videoSupport,
  pluginSupport, storageSupport): when \<open>isBrowser\<close> is false the call writes the one
  diagnostic line and returns \<^verbatim>\<open>undefined\<close>, the value of \<^verbatim>\<open>_browserErr()\<close>; it raises no
  fault. The value is distinguishable from every legitimate result, because in a visual
  host none of these queries returns \<^verbatim>\<open>undefined\<close>.
\<close>

theorem guarded_query_outside_browser_returns_undefined:
  assumes "q \<in> set guarded_queries" and "\<not> isBrowser h"
  shows "run q h = ([''Averigua: this is not a browser''], Inr JUndefined) \<and>
         (\<forall>h'. isBrowser h' \<longrightarrow> snd (run q h') \<noteq> Inr JUndefined)"
  using guarded_outside_browser[OF assms(2,1)] guarded_inside_browser[OF _ assms(1)]
  by (simp add: browserErr_def)

text \<open>The theorem at \<open>isMobile\<close>, on the process host and on a desktop browser.\<close>

theorem guarded_query_outside_browser_returns_undefined_witness:
  "IsMobile \<in> set guarded_queries \<and> \<not> isBrowser node_host \<and>
   run IsMobile node_host = ([''Averigua: this is not a browser''], Inr JUndefined) \<and>
   isBrowser (browser_host firefox_ua sample_window sample_document) \<and>
   snd (run IsMobile (browser_host firefox_ua sample_window sample_document)) \<noteq> Inr JUndefined"
  using guarded_query_outside_browser_returns_undefined[of IsMobile node_host]
  by (simp add: guarded_queries_def isBrowser_node_host isBrowser_browser_host)

text \<open>
  C1 as stated fails: the claim has the value returned outside a visual host never
  \<^verbatim>\<open>undefined\<close>, and on the process host \<open>isMobile\<close> returns exactly that.
\<close>

theorem isMobile_outside_browser_is_undefined:
  "\<not> isBrowser node_host \<and> snd (run IsMobile node_host) = Inr JUndefined"
  by (simp add: isBrowser_node_host isMobile_def browserErr_def)

section \<open>C2: orientation\<close>

text \<open>
  What \<open>orientation\<close> returns in a visual host: the test \<^verbatim>\<open>if (window.orientation)\<close> is
  a test of truthiness, so the angle 0 takes the branch of the absent signal.
\<close>

lemma orientation_in_browser:
  assumes "window h = Some w" and "document h = Some d"
  shows "orientation h =
    returns (JStr (if win_orientation w = JNum (-90) \<or> win_orientation w = JNum 90 then ''landscape''
                   else if truthy (win_orientation w) then ''portrait'' else ''no-support''))"
  using assms by (auto simp: orientation_def isBrowser_def with_window_def)

text \<open>
  C2, at the input where the code leaves it: in a desktop browser whose
  \<^verbatim>\<open>window.orientation\<close> is the number 0, a present angle other than -90 and 90,
  \<open>orientation\<close> returns \<^verbatim>\<open>"no-support"\<close>, where the claim has \<^verbatim>\<open>"portrait"\<close>.
\<close>

theorem orientation_zero_is_no_support:
  "orientation (browser_host firefox_ua (sample_window\<lparr>win_orientation := JNum 0\<rparr>) sample_document)
     = ([], Inr (JStr ''no-support''))"
  by (simp add: orientation_def isBrowser_def browser_host_def with_window_def returns_def)

section \<open>C3: storage support\<close>




section \<open>C4: codec support\<close>

lemma or_no_level: "conforming f \<Longrightarrow> support_level (or_no (f t))"
  unfolding conforming_def support_level_def or_no_def by (metis jsval.inject(3))

lemma or_no_empty: "v = JStr [] \<Longrightarrow> or_no v = JStr ''no''"
  by (simp add: or_no_def)

lemma audio_field:
  assumes "isBrowser h" and "document h = Some d" and "audio_canPlayType d = Some a"
    and "(k, t) \<in> set audio_codecs"
  shows "field k (audioSupport h) = Some (or_no (a t))"
  using assms
  by (auto simp: audio_codecs_def audioSupport_def with_document_def returns_def field_def)

lemma video_field:
  assumes "isBrowser h" and "document h = Some d" and "video_canPlayType d = Some v"
    and "(k, t) \<in> set video_codecs"
  shows "field k (videoSupport h) = Some (or_no (v t))"
  using assms
  by (auto simp: video_codecs_def videoSupport_def with_document_def returns_def field_def)

text \<open>
  C4. In a visual host whose audio and video elements provide \<^verbatim>\<open>canPlayType\<close>, for every
  codec field of \<open>audioSupport\<close> (mp3, vorbis, wav, aac) and of \<open>videoSupport\<close> (webm,
  h264, theora): whenever \<^verbatim>\<open>canPlayType\<close> returns the empty string for the field's type,
  the field is exactly \<^verbatim>\<open>"no"\<close>; and with a codec-support predicate as the platform types
  it (answers among the empty string, \<^verbatim>\<open>"maybe"\<close> and \<^verbatim>\<open>"probably"\<close>), the field is one of
  \<^verbatim>\<open>"no"\<close>, \<^verbatim>\<open>"maybe"\<close> and \<^verbatim>\<open>"probably"\<close>.
\<close>

theorem codec_fields_are_support_levels:
  assumes "isBrowser h" and "document h = Some d"
    and "audio_canPlayType d = Some a" and "video_canPlayType d = Some v"
  shows "(\<forall>(k, t) \<in> set audio_codecs.
            (a t = JStr [] \<longrightarrow> field k (audioSupport h) = Some (JStr ''no'')) \<and>
            (conforming a \<longrightarrow> (\<exists>x. field k (audioSupport h) = Some x \<and> support_level x))) \<and>
         (\<forall>(k, t) \<in> set video_codecs.
            (v t = JStr [] \<longrightarrow> field k (videoSupport h) = Some (JStr ''no'')) \<and>
            (conforming v \<longrightarrow> (\<exists>x. field k (videoSupport h) = Some x \<and> support_level x)))"
proof (intro conjI ballI)
  fix p assume p: "p \<in> set audio_codecs"
  obtain k t where kt: "p = (k, t)" by (cases p)
  have f: "field k (audioSupport h) = Some (or_no (a t))"
    using audio_field[OF assms(1,2,3)] p kt by simp
  show "case p of (k, t) \<Rightarrow>
      (a t = JStr [] \<longrightarrow> field k (audioSupport h) = Some (JStr ''no'')) \<and>
      (conforming a \<longrightarrow> (\<exists>x. field k (audioSupport h) = Some x \<and> support_level x))"
    using f by (simp add: kt or_no_empty or_no_level)
next
  fix p assume p: "p \<in> set video_codecs"
  obtain k t where kt: "p = (k, t)" by (cases p)
  have f: "field k (videoSupport h) = Some (or_no (v t))"
    using video_field[OF assms(1,2,4)] p kt by simp
  show "case p of (k, t) \<Rightarrow>
      (v t = JStr [] \<longrightarrow> field k (videoSupport h) = Some (JStr ''no'')) \<and>
      (conforming v \<longrightarrow> (\<exists>x. field k (videoSupport h) = Some x \<and> support_level x))"
    using f by (simp add: kt or_no_empty or_no_level)
qed

text \<open>
  The theorem on a desktop browser whose elements answer \<^verbatim>\<open>"probably"\<close> for ogg audio,
  \<^verbatim>\<open>"maybe"\<close> for webm video and the empty string for everything else.
\<close>

lemma conforming_sample: "conforming sample_canPlayType"
  by (simp add: conforming_def sample_canPlayType_def)

theorem codec_fields_are_support_levels_witness:
  "isBrowser (browser_host firefox_ua sample_window sample_document) \<and>
   conforming sample_canPlayType \<and>
   sample_canPlayType ''audio/mpeg;'' = JStr [] \<and>
   field ''mp3'' (audioSupport (browser_host firefox_ua sample_window sample_document)) = Some (JStr ''no'') \<and>
   (\<exists>x. field ''webm'' (videoSupport (browser_host firefox_ua sample_window sample_document)) = Some x \<and>
        support_level x)"
proof -
  let ?h = "browser_host firefox_ua sample_window sample_document"
  have b: "isBrowser ?h"
    by (rule isBrowser_browser_host)
  have d: "document ?h = Some sample_document"
    by (simp add: browser_host_def)
  have a: "audio_canPlayType sample_document = Some sample_canPlayType"
    and v: "video_canPlayType sample_document = Some sample_canPlayType"
    by (simp_all add: sample_document_def)
  have e: "sample_canPlayType ''audio/mpeg;'' = JStr []"
    by (simp add: sample_canPlayType_def)
  have mp3: "(''mp3'', ''audio/mpeg;'') \<in> set audio_codecs"
    by (simp add: audio_codecs_def)
  obtain t where webm: "(''webm'', t) \<in> set video_codecs"
    by (auto simp: video_codecs_def)
  note th = codec_fields_are_support_levels[OF b d a v]
  from th mp3 e have "field ''mp3'' (audioSupport ?h) = Some (JStr ''no'')"
    by blast
  moreover from th webm conforming_sample
  have "\<exists>x. field ''webm'' (videoSupport ?h) = Some x \<and> support_level x"
    by blast
  ultimately show ?thesis
    using b e conforming_sample by simp
qed

section \<open>C6: the media query of hasTouch\<close>

text \<open>
  C6, as amended. The media query that \<open>hasTouch\<close> builds is
  \<^verbatim>\<open>(touch-enabled),(-webkit-touch-enabled),(-moz-touch-enabled),(-o-touch-enabled),(-ms-touch-enabled),(heartz)\<close>:
  it has exactly 6 comma-joined parenthesized clauses, the five clauses of the prefixes
  with \<^verbatim>\<open>touch-enabled\<close> and the clause \<^verbatim>\<open>(heartz)\<close> as the last.
\<close>

theorem hasTouch_query_has_six_clauses:
  "hasTouch_query =
     ''(touch-enabled),(-webkit-touch-enabled),(-moz-touch-enabled),(-o-touch-enabled),(-ms-touch-enabled),(heartz)'' \<and>
   clauses hasTouch_query =
     map (\<lambda>p. ''('' @ p @ ''touch-enabled)'') [[], ''-webkit-'', ''-moz-'', ''-o-'', ''-ms-''] @ [''(heartz)''] \<and>
   length (clauses hasTouch_query) = 6"
  by (simp add: hasTouch_query_def prefixes_def clauses_def)

text \<open>C6 as stated fails: the claim has exactly 5 clauses in the query.\<close>

theorem hasTouch_query_not_five_clauses: "length (clauses hasTouch_query) \<noteq> 5"
  by (simp add: hasTouch_query_def prefixes_def clauses_def)

text \<open>This query is what \<open>hasTouch\<close> hands to \<^verbatim>\<open>window.matchMedia\<close>.\<close>

lemma hasTouch_passes_query:
  assumes "window h = Some w" and "document h = Some d" and "\<not> win_has_ontouchstart w"
    and "\<not> truthy (win_DocumentTouch w)" and "win_matchMedia w = Some mq"
  shows "hasTouch h = returns (JBool (truthy (mq hasTouch_query)))"
  using assms by (simp add: hasTouch_def isBrowser_def with_window_def with_document_def)

section \<open>C7: browser information and the leftmost tokens\<close>

lemma browser_host_sel:
  "window (browser_host ua w d) = Some w"
  "document (browser_host ua w d) = Some d"
  "navigator (browser_host ua w d) = Some (sample_navigator ua)"
  by (simp_all add: browser_host_def)

lemma sample_navigator_userAgent: "nav_userAgent (sample_navigator ua) = ua"
  by (simp add: sample_navigator_def)

text \<open>
  Two characters agree under the \<^verbatim>\<open>i\<close> flag iff their codes agree once an upper-case
  ASCII letter is moved to its lower case.
\<close>

lemma lower_eq_iff:
  "lower a = lower b \<longleftrightarrow>
    (let m = (of_char a :: nat); n = (of_char b :: nat)
     in (if 65 \<le> m \<and> m \<le> 90 then m + 32 else m) = (if 65 \<le> n \<and> n \<le> 90 then n + 32 else n))"
proof -
  have "lower a = lower b \<longleftrightarrow> (of_char (lower a) :: nat) = of_char (lower b)"
    by simp
  also have "(of_char (lower a) :: nat) = (let m = (of_char a :: nat) in if 65 \<le> m \<and> m \<le> 90 then m + 32 else m)"
    by (simp add: lower_def Let_def)
  also have "(of_char (lower b) :: nat) = (let m = (of_char b :: nat) in if 65 \<le> m \<and> m \<le> 90 then m + 32 else m)"
    by (simp add: lower_def Let_def)
  finally show ?thesis by (simp add: Let_def)
qed

lemma digits_run:
  assumes "n \<noteq> []" and "\<forall>c \<in> set n. is_digit c" and "rest = [] \<or> \<not> is_digit (hd rest)"
  shows "digits (n @ rest) = Some n"
proof -
  have "takeWhile is_digit rest = []"
    using assms(3) by (cases rest) auto
  then have "takeWhile is_digit (n @ rest) = n"
    using assms(2) by (simp add: takeWhile_append2)
  then show ?thesis
    using assms(1) by (simp add: digits_def)
qed

lemma test_trident_Trident: "test_trident ''Trident''"
  by (simp add: test_trident_def lower_eq_iff)

text \<open>The leftmost match: positions before it are skipped.\<close>

lemma search_here: "m s = Some r \<Longrightarrow> search m s = Some r"
  by (cases s) simp_all

lemma search_none_before: "none_before m pre s \<Longrightarrow> search m (pre @ s) = search m s"
  by (induction pre) simp_all

lemma search_b_none_before:
  assumes "none_before_b m prev pre s" and "s \<noteq> []" and "m s = Some r"
  shows "search_b m prev (pre @ s) = Some r"
  using assms(1)
proof (induction pre arbitrary: prev)
  case Nil
  obtain c cs where s: "s = c # cs"
    using assms(2) by (cases s) auto
  from Nil have "(case prev of None \<Rightarrow> True | Some p \<Rightarrow> \<not> is_word p)"
    by simp
  then show ?case
    using assms(3) by (simp add: s)
next
  case (Cons c cs)
  then have here: "(if (case prev of None \<Rightarrow> True | Some p \<Rightarrow> \<not> is_word p) then m (c # cs @ s) else None) = None"
    and rest: "none_before_b m (Some c) cs s"
    by (auto split: option.splits)
  show ?case
    using here Cons.IH[OF rest] by simp
qed

lemma digit_not_space: "is_digit c \<Longrightarrow> \<not> is_space c"
  by (auto simp: is_digit_def is_space_def Let_def)

lemma dropWhile_space_digits:
  assumes "ds \<noteq> []" and "\<forall>c \<in> set ds. is_digit c"
  shows "dropWhile is_space (ds @ rest) = ds @ rest"
proof -
  obtain c cs where ds: "ds = c # cs"
    using assms(1) by (cases ds) auto
  with assms(2) have "\<not> is_space c"
    by (simp add: digit_not_space)
  then show ?thesis
    by (simp add: ds)
qed

lemma match_browser_at_Trident:
  assumes "ds \<noteq> []" and "\<forall>c \<in> set ds. is_digit c" and "rest = [] \<or> \<not> is_digit (hd rest)"
  shows "match_browser_at (''Trident/'' @ ds @ rest) = Some (''Trident'', ds)"
  by (simp add: match_browser_at_def match_name_at_def lower_eq_iff Let_def
      dropWhile_space_digits[OF assms(1,2)] digits_run[OF assms])

lemma match_browser_at_Chrome:
  assumes "ds \<noteq> []" and "\<forall>c \<in> set ds. is_digit c" and "rest = [] \<or> \<not> is_digit (hd rest)"
  shows "match_browser_at (''Chrome/'' @ ds @ rest) = Some (''Chrome'', ds)"
  by (simp add: match_browser_at_def match_name_at_def lower_eq_iff Let_def
      dropWhile_space_digits[OF assms(1,2)] digits_run[OF assms])

lemma match_rv_at_11: "match_rv_at (''rv:11.0'' @ r) = Some ''11''"
  by (simp add: match_rv_at_def digits_def is_digit_def Let_def)

lemma match_opr_edge_at_OPR:
  assumes "n \<noteq> []" and "\<forall>c \<in> set n. is_digit c" and "r = [] \<or> \<not> is_digit (hd r)"
  shows "match_opr_edge_at (''OPR/'' @ n @ r) = Some (''OPR'', n)"
  by (simp add: match_opr_edge_at_def Let_def digits_run[OF assms])


text \<open>
  C7, as amended. Let a client string contain a token \<^verbatim>\<open>Trident/\<close> with version digits,
  with no browser token of the first pattern starting before it, and a token
  \<^verbatim>\<open>rv:11.0\<close> at a word boundary, with no \<^verbatim>\<open>rv\<close> token starting before it: then
  \<open>browserInfo\<close> returns \<^verbatim>\<open>"IE 11"\<close>. Let a Chrome-style client string contain a token
  \<^verbatim>\<open>Chrome/\<close> with version digits, with no browser token of the first pattern starting
  before it, and a token \<^verbatim>\<open>OPR/\<close> with the version digits \<open>n\<close> at a word boundary, with
  no \<^verbatim>\<open>OPR/\<close> or \<^verbatim>\<open>Edge/\<close> token starting before it: then \<open>browserInfo\<close> returns
  \<^verbatim>\<open>"Opera "\<close> followed by \<open>n\<close>, Opera with the version number of the token, not Chrome.
\<close>

theorem browserInfo_leftmost_tokens:
  assumes "ua = pre @ ''Trident/'' @ ds @ rest"
    and "none_before match_browser_at pre (''Trident/'' @ ds @ rest)"
    and "ds \<noteq> []" and "\<forall>c \<in> set ds. is_digit c" and "rest = [] \<or> \<not> is_digit (hd rest)"
    and "ua = p @ ''rv:11.0'' @ r"
    and "none_before_b match_rv_at None p (''rv:11.0'' @ r)"
    and "ua' = pre' @ ''Chrome/'' @ ds' @ rest'"
    and "none_before match_browser_at pre' (''Chrome/'' @ ds' @ rest')"
    and "ds' \<noteq> []" and "\<forall>c \<in> set ds'. is_digit c" and "rest' = [] \<or> \<not> is_digit (hd rest')"
    and "ua' = p' @ ''OPR/'' @ n @ r'"
    and "none_before_b match_opr_edge_at None p' (''OPR/'' @ n @ r')"
    and "n \<noteq> []" and "\<forall>c \<in> set n. is_digit c" and "r' = [] \<or> \<not> is_digit (hd r')"
  shows "browserInfo (browser_host ua w d) = ([], Inr (JStr ''IE 11'')) \<and>
         browserInfo (browser_host ua' w d) = ([], Inr (JStr (''Opera '' @ n)))"
proof
  have "match_browser ua = search match_browser_at (''Trident/'' @ ds @ rest)"
    unfolding match_browser_def assms(1) using assms(2) by (rule search_none_before)
  then have M: "match_browser ua = Some (''Trident'', ds)"
    using search_here[of match_browser_at, OF match_browser_at_Trident[OF assms(3,4,5)]] by simp
  have rv: "match_rv ua = Some ''11''"
    unfolding match_rv_def assms(6)
    by (rule search_b_none_before[OF assms(7) _ match_rv_at_11]) simp
  show "browserInfo (browser_host ua w d) = ([], Inr (JStr ''IE 11''))"
    by (simp add: browserInfo_def isBrowser_browser_host with_navigator_def browser_host_sel
        sample_navigator_userAgent M rv test_trident_Trident returns_def)
next
  have "match_browser ua' = search match_browser_at (''Chrome/'' @ ds' @ rest')"
    unfolding match_browser_def assms(8) using assms(9) by (rule search_none_before)
  then have M: "match_browser ua' = Some (''Chrome'', ds')"
    using search_here[of match_browser_at, OF match_browser_at_Chrome[OF assms(10,11,12)]] by simp
  have opr: "match_opr_edge ua' = Some (''OPR'', n)"
    unfolding match_opr_edge_def assms(13)
    by (rule search_b_none_before[OF assms(14) _ match_opr_edge_at_OPR[OF assms(15,16,17)]]) simp
  have t: "\<not> test_trident ''Chrome''"
    by (simp add: test_trident_def lower_eq_iff)
  show "browserInfo (browser_host ua' w d) = ([], Inr (JStr (''Opera '' @ n)))"
    by (simp add: browserInfo_def isBrowser_browser_host with_navigator_def browser_host_sel
        sample_navigator_userAgent M opr t returns_def)
qed

text \<open>
  The theorem on the sample client strings of Internet Explorer 11 and of Opera 43.
\<close>

theorem browserInfo_leftmost_tokens_witness:
  "ie11_ua = ''Mozilla/5.0 (Windows NT 6.1; WOW64; '' @ ''Trident/'' @ ''7'' @ ''.0; rv:11.0) like Gecko'' \<and>
   ie11_ua = ''Mozilla/5.0 (Windows NT 6.1; WOW64; Trident/7.0; '' @ ''rv:11.0'' @ '') like Gecko'' \<and>
   browserInfo (browser_host ie11_ua sample_window sample_document) = ([], Inr (JStr ''IE 11'')) \<and>
   opera_ua ''43.0.2442.991'' =
     ''Mozilla/5.0 (Windows NT 10.0; Win64; x64) AppleWebKit/537.36 (KHTML, like Gecko) '' @
     ''Chrome/'' @ ''56'' @ ''.0.2924.87 Safari/537.36 OPR/43.0.2442.991'' \<and>
   opera_ua ''43.0.2442.991'' =
     ''Mozilla/5.0 (Windows NT 10.0; Win64; x64) AppleWebKit/537.36 (KHTML, like Gecko) Chrome/56.0.2924.87 Safari/537.36 '' @
     ''OPR/'' @ ''43'' @ ''.0.2442.991'' \<and>
   browserInfo (browser_host (opera_ua ''43.0.2442.991'') sample_window sample_document)
     = ([], Inr (JStr ''Opera 43''))"
proof -
  have a1: "ie11_ua = ''Mozilla/5.0 (Windows NT 6.1; WOW64; '' @ ''Trident/'' @ ''7'' @ ''.0; rv:11.0) like Gecko''"
    and a6: "ie11_ua = ''Mozilla/5.0 (Windows NT 6.1; WOW64; Trident/7.0; '' @ ''rv:11.0'' @ '') like Gecko''"
    by (simp_all add: ie11_ua_def)
  have a2: "none_before match_browser_at ''Mozilla/5.0 (Windows NT 6.1; WOW64; ''
              (''Trident/'' @ ''7'' @ ''.0; rv:11.0) like Gecko'')"
    by (simp add: match_browser_at_def match_name_at_def lower_eq_iff Let_def)
  have a7: "none_before_b match_rv_at None ''Mozilla/5.0 (Windows NT 6.1; WOW64; Trident/7.0; ''
              (''rv:11.0'' @ '') like Gecko'')"
    by (simp add: match_rv_at_def is_word_def Let_def)
  have a8: "opera_ua ''43.0.2442.991'' =
      ''Mozilla/5.0 (Windows NT 10.0; Win64; x64) AppleWebKit/537.36 (KHTML, like Gecko) '' @
      ''Chrome/'' @ ''56'' @ ''.0.2924.87 Safari/537.36 OPR/43.0.2442.991''"
    and a13: "opera_ua ''43.0.2442.991'' =
      ''Mozilla/5.0 (Windows NT 10.0; Win64; x64) AppleWebKit/537.36 (KHTML, like Gecko) Chrome/56.0.2924.87 Safari/537.36 '' @
      ''OPR/'' @ ''43'' @ ''.0.2442.991''"
    by (simp_all add: opera_ua_def)
  have a9: "none_before match_browser_at
              ''Mozilla/5.0 (Windows NT 10.0; Win64; x64) AppleWebKit/537.36 (KHTML, like Gecko) ''
              (''Chrome/'' @ ''56'' @ ''.0.2924.87 Safari/537.36 OPR/43.0.2442.991'')"
    by (simp add: match_browser_at_def match_name_at_def lower_eq_iff Let_def digits_def
        is_digit_def is_space_def)
  have a14: "none_before_b match_opr_edge_at None
              ''Mozilla/5.0 (Windows NT 10.0; Win64; x64) AppleWebKit/537.36 (KHTML, like Gecko) Chrome/56.0.2924.87 Safari/537.36 ''
              (''OPR/'' @ ''43'' @ ''.0.2442.991'')"
    by (simp add: match_opr_edge_at_def is_word_def Let_def)
  have d7: "''7'' \<noteq> []" "\<forall>c \<in> set ''7''. is_digit c" "''.0; rv:11.0) like Gecko'' = [] \<or> \<not> is_digit (hd ''.0; rv:11.0) like Gecko'')"
    and d56: "''56'' \<noteq> []" "\<forall>c \<in> set ''56''. is_digit c"
      "''.0.2924.87 Safari/537.36 OPR/43.0.2442.991'' = [] \<or> \<not> is_digit (hd ''.0.2924.87 Safari/537.36 OPR/43.0.2442.991'')"
    and d43: "''43'' \<noteq> []" "\<forall>c \<in> set ''43''. is_digit c" "''.0.2442.991'' = [] \<or> \<not> is_digit (hd ''.0.2442.991'')"
    by (simp_all add: is_digit_def)
  from browserInfo_leftmost_tokens[OF a1 a2 d7 a6 a7 a8 a9 d56 a13 a14 d43, of sample_window sample_document]
  show ?thesis
    using a1 a6 a8 a13 by simp
qed

text \<open>
  C7 as stated fails: a client string that contains \<^verbatim>\<open>Trident\<close> and the token
  \<^verbatim>\<open>rv:11.0\<close> need not give \<^verbatim>\<open>"IE 11"\<close>. The first pattern takes the leftmost browser
  token, and with an \<^verbatim>\<open>MSIE\<close> token before \<^verbatim>\<open>Trident\<close> the result is the record of
  \<^verbatim>\<open>MSIE\<close> and its version.
\<close>

theorem browserInfo_msie_before_trident:
  "msie_ua = ''Mozilla/5.0 (compatible; MSIE 10.0; Windows NT 6.1; '' @ ''Trident'' @ ''/7.0; '' @
             ''rv:11.0'' @ '') like Gecko'' \<and>
   browserInfo (browser_host msie_ua sample_window sample_document)
     = ([], Inr (JObj [(''name'', JStr ''MSIE''), (''version'', JStr ''10'')]))"
proof -
  have M: "match_browser msie_ua = Some (''MSIE'', ''10'')"
    by (simp add: msie_ua_def match_browser_def match_browser_at_def match_name_at_def digits_def
        lower_eq_iff is_digit_def is_space_def Let_def)
  have v: "match_version msie_ua = None"
    by (simp add: msie_ua_def match_version_def match_version_at_def lower_eq_iff)
  have t: "\<not> test_trident ''MSIE''"
    by (simp add: test_trident_def lower_eq_iff)
  have "browserInfo (browser_host msie_ua sample_window sample_document)
     = ([], Inr (JObj [(''name'', JStr ''MSIE''), (''version'', JStr ''10'')]))"
    by (simp add: browserInfo_def isBrowser_browser_host with_navigator_def browser_host_sel
        sample_navigator_userAgent M v t returns_def)
  then show ?thesis
    by (simp add: msie_ua_def)
qed


section \<open>C10: the queries without a guard\<close>

lemma gpuInfo_no_document: "document h = None \<Longrightarrow> gpuInfo h = throws (ReferenceError ''document'')"
  by (simp add: gpuInfo_def with_document_def)

lemma gpuInfo_null_context:
  "document h = Some d \<Longrightarrow> canvas_getContext d ''webgl'' = None \<Longrightarrow>
   gpuInfo h = throws (TypeError ''gl.getExtension'')"
  by (simp add: gpuInfo_def with_document_def)

lemma gpuInfo_silent: "fst (gpuInfo h) = []"
  by (simp add: gpuInfo_def with_document_def returns_def throws_def Let_def
      split: option.split)

lemma fontSupport_no_document:
  "document h = None \<Longrightarrow> fst (fontSupport h) = throws (ReferenceError ''document'')"
  by (simp add: fontSupport_def)

text \<open>
  C10, as amended. \<open>gpuInfo\<close> has no visual-host guard and no soft-fail branch: if the
  document global is absent it raises a \<open>ReferenceError\<close>, and if the \<^verbatim>\<open>"webgl"\<close>
  context of the canvas is \<^verbatim>\<open>null\<close> it raises a \<open>TypeError\<close>, in both cases
  with no diagnostic and no value returned. It is not the only such query:
  \<open>fontSupport\<close> has no guard either and raises the same \<open>ReferenceError\<close> when the
  document global is absent. The twelve guarded queries soft-fail outside a visual host.
\<close>

theorem unguarded_queries_fault:
  "(document h = None \<longrightarrow>
      run GpuInfo h = ([], Inl (ReferenceError ''document'')) \<and>
      run FontSupport h = ([], Inl (ReferenceError ''document''))) \<and>
   (\<forall>d. document h = Some d \<and> canvas_getContext d ''webgl'' = None \<longrightarrow>
      run GpuInfo h = ([], Inl (TypeError ''gl.getExtension''))) \<and>
   (\<forall>q \<in> set guarded_queries. \<not> isBrowser h \<longrightarrow>
      run q h = ([''Averigua: this is not a browser''], Inr JUndefined))"
  using gpuInfo_no_document[of h] fontSupport_no_document[of h] gpuInfo_null_context[of h]
    guarded_outside_browser[of h]
  by (auto simp: throws_def browserErr_def)

text \<open>The theorem on the process host, and on a desktop browser that gives no 3D context.\<close>

theorem unguarded_queries_fault_witness:
  "document node_host = None \<and> \<not> isBrowser node_host \<and>
   run GpuInfo node_host = ([], Inl (ReferenceError ''document'')) \<and>
   run FontSupport node_host = ([], Inl (ReferenceError ''document'')) \<and>
   run Orientation node_host = ([''Averigua: this is not a browser''], Inr JUndefined) \<and>
   canvas_getContext sample_document ''webgl'' = None \<and>
   run GpuInfo (browser_host firefox_ua sample_window sample_document)
     = ([], Inl (TypeError ''gl.getExtension''))"
proof -
  have n: "document node_host = None"
    by (simp add: node_host_def)
  have o: "Orientation \<in> set guarded_queries"
    by (simp add: guarded_queries_def)
  have d: "document (browser_host firefox_ua sample_window sample_document) = Some sample_document"
    by (simp add: browser_host_def)
  have c: "canvas_getContext sample_document ''webgl'' = None"
    by (simp add: sample_document_def)
  from unguarded_queries_fault[of node_host] n o isBrowser_node_host
  have "run GpuInfo node_host = ([], Inl (ReferenceError ''document'')) \<and>
        run FontSupport node_host = ([], Inl (ReferenceError ''document'')) \<and>
        run Orientation node_host = ([''Averigua: this is not a browser''], Inr JUndefined)"
    by blast
  moreover from unguarded_queries_fault[of "browser_host firefox_ua sample_window sample_document"] d c
  have "run GpuInfo (browser_host firefox_ua sample_window sample_document)
          = ([], Inl (TypeError ''gl.getExtension''))"
    by blast
  ultimately show ?thesis
    using n c isBrowser_node_host by simp
qed

text \<open>
  C10 as stated fails: the claim has \<open>gpuInfo\<close> as the only query without a guard, and
  on the process host \<open>fontSupport\<close>, another query, raises a hard fault with no
  diagnostic.
\<close>

theorem fontSupport_has_no_guard_either:
  "\<not> isBrowser node_host \<and> FontSupport \<noteq> GpuInfo \<and>
   run FontSupport node_host = ([], Inl (ReferenceError ''document''))"
proof -
  have "document node_host = None"
    by (simp add: node_host_def)
  then have "fst (fontSupport node_host) = ([], Inl (ReferenceError ''document''))"
    by (simp add: fontSupport_def throws_def)
  then show ?thesis
    using isBrowser_node_host by simp
qed

section \<open>Font support: what the probe computes and what it leaves\<close>

subsection \<open>Creating the spans\<close>

lemma set_style_last:
  "set_style (length xs) kv (d\<lparr>nodes := xs @ [e]\<rparr>) =
     d\<lparr>nodes := xs @ [e\<lparr>style := AList.update (fst kv) (snd kv) (style e)\<rparr>]\<rparr>"
  by (simp add: set_style_def)

lemma fold_set_style_last:
  "fold (set_style (length xs)) kvs (d\<lparr>nodes := xs @ [e]\<rparr>) =
     d\<lparr>nodes := xs @ [e\<lparr>style := fold (\<lambda>kv. AList.update (fst kv) (snd kv)) kvs (style e)\<rparr>]\<rparr>"
proof (induction kvs arbitrary: e)
  case Nil
  show ?case by simp
next
  case (Cons kv kvs)
  show ?case
    by (simp add: set_style_last Cons.IH)
qed

lemma set_innerHTML_last:
  "set_innerHTML (length xs) v (d\<lparr>nodes := xs @ [e]\<rparr>) = d\<lparr>nodes := xs @ [e\<lparr>innerHTML := v\<rparr>]\<rparr>"
  by (simp add: set_innerHTML_def)

lemma fold_spanStyle: "fold (\<lambda>kv. AList.update (fst kv) (snd kv)) spanStyle [] = spanStyle"
  by (simp add: spanStyle_def)

lemma createSpan_eq: "createSpan d = (length (nodes d), d\<lparr>nodes := nodes d @ [probeSpan]\<rparr>)"
  by (simp add: createSpan_def createElement_def fold_set_style_last set_innerHTML_last
      fold_spanStyle probeSpan_def)

lemma fontFamily_fresh: "AList.update ''fontFamily'' v spanStyle = spanStyle @ [(''fontFamily'', v)]"
  by (simp add: spanStyle_def)

lemma createSpanWithFonts_eq:
  "createSpanWithFonts f b d = (length (nodes d), d\<lparr>nodes := nodes d @ [fontSpan f b]\<rparr>)"
  by (simp add: createSpanWithFonts_def createSpan_eq set_style_last fontSpan_def probeSpan_def
      fontFamily_fresh)

lemma createBaseSpan_eq:
  "set_style (length (nodes d)) (''fontFamily'', b) (snd (createSpan d)) = d\<lparr>nodes := nodes d @ [baseSpan b]\<rparr>"
  by (simp add: createSpan_eq set_style_last baseSpan_def probeSpan_def fontFamily_fresh)

lemma appendChild_old:
  assumes "p < length xs"
  shows "appendChild p c (d\<lparr>nodes := xs @ ys\<rparr>) = d\<lparr>nodes := xs[p := add_children [c] (xs ! p)] @ ys\<rparr>"
  using assms by (simp add: appendChild_def add_children_def list_update_append nth_append)

lemma add_children_append: "add_children cs (add_children bs e) = add_children (bs @ cs) e"
  by (simp add: add_children_def)

lemma add_children_Nil: "add_children [] e = e"
  by (simp add: add_children_def)


subsection \<open>The loops that create the spans\<close>

lemma upt_first: "[n..<Suc (n + k)] = n # [Suc n..<Suc (n + k)]"
  by (simp add: upt_conv_Cons del: upt_Suc)

lemma baseFontsSpans_loop_eq:
  assumes "divId < length (nodes d)"
  shows "baseFontsSpans_loop divId bs spans d =
    (spans @ [length (nodes d)..<length (nodes d) + length bs],
     d\<lparr>nodes := (nodes d)[divId := add_children [length (nodes d)..<length (nodes d) + length bs]
                                  (nodes d ! divId)] @ map baseSpan bs\<rparr>)"
  using assms
proof (induction bs arbitrary: spans d)
  case Nil
  then show ?case
    by (simp add: add_children_Nil)
next
  case (Cons b bs)
  let ?n = "length (nodes d)"
  let ?d3 = "d\<lparr>nodes := (nodes d)[divId := add_children [?n] (nodes d ! divId)] @ [baseSpan b]\<rparr>"
  have step: "baseFontsSpans_loop divId (b # bs) spans d = baseFontsSpans_loop divId bs (spans @ [?n]) ?d3"
    using Cons.prems createBaseSpan_eq[of d b]
    by (simp add: createSpan_eq appendChild_old)
  have len: "length (nodes ?d3) = Suc ?n" and lt: "divId < length (nodes ?d3)"
    using Cons.prems by simp_all
  have at: "nodes ?d3 ! divId = add_children [?n] (nodes d ! divId)"
    using Cons.prems by (simp add: nth_append)
  have upd: "(nodes ?d3)[divId := x] = (nodes d)[divId := x] @ [baseSpan b]" for x
    using Cons.prems by (simp add: list_update_append)
  show ?case
    unfolding step Cons.IH[OF lt] len at upd
    by (simp add: add_children_append upt_first del: upt_Suc)
qed

lemma fontSpans_loop_eq:
  assumes "divId < length (nodes d)"
  shows "fontSpans_loop divId f bs spans d =
    (spans @ [length (nodes d)..<length (nodes d) + length bs],
     d\<lparr>nodes := (nodes d)[divId := add_children [length (nodes d)..<length (nodes d) + length bs]
                                  (nodes d ! divId)] @ map (fontSpan f) bs\<rparr>)"
  using assms
proof (induction bs arbitrary: spans d)
  case Nil
  then show ?case
    by (simp add: add_children_Nil)
next
  case (Cons b bs)
  let ?n = "length (nodes d)"
  let ?d2 = "d\<lparr>nodes := (nodes d)[divId := add_children [?n] (nodes d ! divId)] @ [fontSpan f b]\<rparr>"
  have step: "fontSpans_loop divId f (b # bs) spans d = fontSpans_loop divId f bs (spans @ [?n]) ?d2"
    using Cons.prems by (simp add: createSpanWithFonts_eq appendChild_old)
  have len: "length (nodes ?d2) = Suc ?n" and lt: "divId < length (nodes ?d2)"
    using Cons.prems by simp_all
  have at: "nodes ?d2 ! divId = add_children [?n] (nodes d ! divId)"
    using Cons.prems by (simp add: nth_append)
  have upd: "(nodes ?d2)[divId := x] = (nodes d)[divId := x] @ [fontSpan f b]" for x
    using Cons.prems by (simp add: list_update_append)
  show ?case
    unfolding step Cons.IH[OF lt] len at upd
    by (simp add: add_children_append upt_first del: upt_Suc)
qed


lemma nth_concat_rows:
  assumes "i < length fs" and "j < length bs"
  shows "concat (map (\<lambda>f. map (F f) bs) fs) ! (length bs * i + j) = F (fs ! i) (bs ! j)"
  using assms
proof (induction fs arbitrary: i)
  case Nil
  then show ?case by simp
next
  case (Cons f fs)
  show ?case
  proof (cases i)
    case 0
    with Cons.prems show ?thesis
      by (simp add: nth_append)
  next
    case (Suc i')
    with Cons.prems have "i' < length fs"
      by simp
    from Cons.IH[OF this Cons.prems(2)] Suc show ?thesis
      by (simp add: nth_append)
  qed
qed

lemma length_concat_rows: "length (concat (map (\<lambda>f. map (F f) bs) fs)) = length bs * length fs"
  by (induction fs) simp_all

text \<open>The outer loop of \<^verbatim>\<open>initializeFontsSpans\<close>: the document it leaves.\<close>

lemma fontsSpans_loop_dom:
  assumes "divId < length (nodes d)"
  shows "snd (fontsSpans_loop divId fs spans d) =
    d\<lparr>nodes := (nodes d)[divId := add_children
                    [length (nodes d)..<length (nodes d) + length baseFonts * length fs]
                    (nodes d ! divId)] @
                 concat (map (\<lambda>f. map (fontSpan f) baseFonts) fs)\<rparr>"
  using assms
proof (induction fs arbitrary: spans d)
  case Nil
  then show ?case
    by (simp add: add_children_Nil)
next
  case (Cons f fs)
  let ?n = "length (nodes d)" and ?k = "length baseFonts"
  let ?d1 = "d\<lparr>nodes := (nodes d)[divId := add_children [?n..<?n + ?k] (nodes d ! divId)] @
                          map (fontSpan f) baseFonts\<rparr>"
  have step: "fontsSpans_loop divId (f # fs) spans d =
      fontsSpans_loop divId fs (spans(f \<mapsto> [?n..<?n + ?k])) ?d1"
    using Cons.prems by (simp add: fontSpans_loop_eq)
  have len: "length (nodes ?d1) = ?n + ?k" and lt: "divId < length (nodes ?d1)"
    using Cons.prems by simp_all
  have at: "nodes ?d1 ! divId = add_children [?n..<?n + ?k] (nodes d ! divId)"
    using Cons.prems by (simp add: nth_append)
  have upd: "(nodes ?d1)[divId := x] = (nodes d)[divId := x] @ map (fontSpan f) baseFonts" for x
    using Cons.prems by (simp add: list_update_append)
  have ids: "[?n..<?n + ?k] @ [?n + ?k..<?n + ?k + ?k * length fs] = [?n..<?n + ?k * length (f # fs)]"
    using upt_add_eq_append[of ?n "?n + ?k" "?k * length fs"] by (simp add: add.assoc)
  show ?case
    unfolding step Cons.IH[OF lt] len at upd add_children_append ids
    by simp
qed

text \<open>The object it returns: every candidate has the spans of one of its rounds.\<close>

lemma fontsSpans_loop_spans:
  assumes "divId < length (nodes d)"
  shows "(f \<notin> set fs \<longrightarrow> fst (fontsSpans_loop divId fs spans d) f = spans f) \<and>
         (f \<in> set fs \<longrightarrow> (\<exists>i<length fs. fs ! i = f \<and>
            fst (fontsSpans_loop divId fs spans d) f =
              Some [length (nodes d) + length baseFonts * i..<
                    length (nodes d) + length baseFonts * i + length baseFonts]))"
  using assms
proof (induction fs arbitrary: spans d)
  case Nil
  then show ?case by simp
next
  case (Cons g fs)
  let ?n = "length (nodes d)" and ?k = "length baseFonts"
  let ?d1 = "d\<lparr>nodes := (nodes d)[divId := add_children [?n..<?n + ?k] (nodes d ! divId)] @
                          map (fontSpan g) baseFonts\<rparr>"
  let ?sp = "spans(g \<mapsto> [?n..<?n + ?k])"
  have step: "fontsSpans_loop divId (g # fs) spans d = fontsSpans_loop divId fs ?sp ?d1"
    using Cons.prems by (simp add: fontSpans_loop_eq)
  have len: "length (nodes ?d1) = ?n + ?k" and lt: "divId < length (nodes ?d1)"
    using Cons.prems by simp_all
  note IH = Cons.IH[OF lt, of ?sp, unfolded len]
  show ?case
  proof (intro conjI impI)
    assume notin: "f \<notin> set (g # fs)"
    then have "f \<notin> set fs" and ne: "f \<noteq> g"
      by simp_all
    with IH have "fst (fontsSpans_loop divId fs ?sp ?d1) f = ?sp f"
      by blast
    also have "?sp f = spans f"
      using ne by simp
    finally show "fst (fontsSpans_loop divId (g # fs) spans d) f = spans f"
      unfolding step .
  next
    assume mem: "f \<in> set (g # fs)"
    show "\<exists>i<length (g # fs). (g # fs) ! i = f \<and>
            fst (fontsSpans_loop divId (g # fs) spans d) f =
              Some [?n + ?k * i..<?n + ?k * i + ?k]"
    proof (cases "f \<in> set fs")
      case True
      with IH obtain i where i: "i < length fs" "fs ! i = f"
        and r: "fst (fontsSpans_loop divId fs ?sp ?d1) f = Some [?n + ?k + ?k * i..<?n + ?k + ?k * i + ?k]"
        by blast
      have a: "?n + ?k + ?k * i = ?n + ?k * Suc i"
        by simp
      have "Suc i < length (g # fs)" and "(g # fs) ! Suc i = f"
        using i by simp_all
      moreover have "fst (fontsSpans_loop divId (g # fs) spans d) f =
              Some [?n + ?k * Suc i..<?n + ?k * Suc i + ?k]"
        unfolding step r a ..
      ultimately show ?thesis by blast
    next
      case False
      with mem have fg: "f = g" by simp
      from False IH have "fst (fontsSpans_loop divId fs ?sp ?d1) f = ?sp f"
        by blast
      also have "?sp f = Some [?n + ?k * 0..<?n + ?k * 0 + ?k]"
        using fg by simp
      finally have "fst (fontsSpans_loop divId (g # fs) spans d) f = Some [?n + ?k * 0..<?n + ?k * 0 + ?k]"
        unfolding step .
      moreover have "0 < length (g # fs)" and "(g # fs) ! 0 = f"
        using fg by simp_all
      ultimately show ?thesis by blast
    qed
  qed
qed


subsection \<open>Measuring\<close>

lemma defaults_loop_Inr:
  assumes "\<forall>i \<in> set is. i < length spans"
  shows "\<exists>wh'. defaults_loop L d spans is wh = Inr wh'"
  using assms by (induction "is" arbitrary: wh) simp_all

lemma defaults_loop_ok:
  assumes "\<forall>i \<in> set is. i < length spans \<and>
             offsetWidth L d (spans ! i) = fst (g (baseSpan (baseFonts ! i))) \<and>
             offsetHeight L d (spans ! i) = snd (g (baseSpan (baseFonts ! i)))"
  shows "\<exists>dw dh. defaults_loop L d spans is wh = Inr (dw, dh) \<and>
           (\<forall>b. dw b = (if b \<in> (\<lambda>i. baseFonts ! i) ` set is then Some (fst (g (baseSpan b))) else fst wh b)) \<and>
           (\<forall>b. dh b = (if b \<in> (\<lambda>i. baseFonts ! i) ` set is then Some (snd (g (baseSpan b))) else snd wh b))"
  using assms
proof (induction "is" arbitrary: wh)
  case Nil
  then show ?case
    by (cases wh) simp
next
  case (Cons i "is")
  let ?wh = "((fst wh)(baseFonts ! i \<mapsto> offsetWidth L d (spans ! i)),
              (snd wh)(baseFonts ! i \<mapsto> offsetHeight L d (spans ! i)))"
  from Cons.prems have i: "i < length spans"
    and w: "offsetWidth L d (spans ! i) = fst (g (baseSpan (baseFonts ! i)))"
    and h: "offsetHeight L d (spans ! i) = snd (g (baseSpan (baseFonts ! i)))"
    and rest: "\<forall>i \<in> set is. i < length spans \<and>
             offsetWidth L d (spans ! i) = fst (g (baseSpan (baseFonts ! i))) \<and>
             offsetHeight L d (spans ! i) = snd (g (baseSpan (baseFonts ! i)))"
    by simp_all
  have step: "defaults_loop L d spans (i # is) wh = defaults_loop L d spans is ?wh"
    using i by simp
  from Cons.IH[OF rest, of ?wh] obtain dw dh where
    r: "defaults_loop L d spans is ?wh = Inr (dw, dh)"
    and dw: "\<forall>b. dw b = (if b \<in> (\<lambda>i. baseFonts ! i) ` set is then Some (fst (g (baseSpan b))) else fst ?wh b)"
    and dh: "\<forall>b. dh b = (if b \<in> (\<lambda>i. baseFonts ! i) ` set is then Some (snd (g (baseSpan b))) else snd ?wh b)"
    by blast
  have "\<forall>b. dw b = (if b \<in> (\<lambda>i. baseFonts ! i) ` set (i # is) then Some (fst (g (baseSpan b))) else fst wh b)"
    using dw w by auto
  moreover have "\<forall>b. dh b = (if b \<in> (\<lambda>i. baseFonts ! i) ` set (i # is) then Some (snd (g (baseSpan b))) else snd wh b)"
    using dh h by auto
  ultimately show ?case
    unfolding step using r by blast
qed

lemma isFontAvailable_loop_ok:
  assumes "\<forall>i \<in> set is. i < length ids \<and> i < length baseFonts \<and>
             offsetWidth L d (ids ! i) = fst (g (fontSpan f (baseFonts ! i))) \<and>
             offsetHeight L d (ids ! i) = snd (g (fontSpan f (baseFonts ! i)))"
    and "\<forall>b \<in> set baseFonts. dw b = Some (fst (g (baseSpan b))) \<and> dh b = Some (snd (g (baseSpan b)))"
  shows "isFontAvailable_loop L d dw dh ids is = Inr (list_ex (\<lambda>i. differs g f (baseFonts ! i)) is)"
  using assms(1)
proof (induction "is")
  case Nil
  show ?case by simp
next
  case (Cons i "is")
  then have i: "i < length ids" "i < length baseFonts"
    and w: "offsetWidth L d (ids ! i) = fst (g (fontSpan f (baseFonts ! i)))"
    and h: "offsetHeight L d (ids ! i) = snd (g (fontSpan f (baseFonts ! i)))"
    by simp_all
  from i(2) assms(2) have dflt: "dw (baseFonts ! i) = Some (fst (g (baseSpan (baseFonts ! i))))"
      "dh (baseFonts ! i) = Some (snd (g (baseSpan (baseFonts ! i))))"
    by simp_all
  from Cons have IH: "isFontAvailable_loop L d dw dh ids is = Inr (list_ex (\<lambda>i. differs g f (baseFonts ! i)) is)"
    by simp
  show ?case
    using i(1) by (simp add: w h dflt IH differs_def)
qed

lemma list_ex_nth: "list_ex (\<lambda>i. P (bs ! i)) [0..<length bs] = list_ex P bs"
proof -
  have "list_ex (\<lambda>i. P (bs ! i)) [0..<length bs] = list_ex P (map (\<lambda>i. bs ! i) [0..<length bs])"
    by (simp add: list_ex_iff)
  then show ?thesis
    by (simp add: map_nth)
qed

lemma available_loop_ok:
  assumes "\<forall>f \<in> set fs. \<exists>ids. fontsSpans f = Some ids \<and>
             isFontAvailable L d dw dh ids = Inr (judged_available g f)"
  shows "available_loop L d dw dh fontsSpans fs acc = Inr (acc @ filter (judged_available g) fs)"
  using assms
proof (induction fs arbitrary: acc)
  case Nil
  show ?case by simp
next
  case (Cons f fs)
  then obtain ids where ids: "fontsSpans f = Some ids"
    and av: "isFontAvailable L d dw dh ids = Inr (judged_available g f)"
    by auto
  from Cons have IH: "available_loop L d dw dh fontsSpans fs acc' = Inr (acc' @ filter (judged_available g) fs)" for acc'
    by simp
  show ?case
    by (simp add: ids av IH)
qed


subsection \<open>The documents of the probe\<close>

lemma getBody_Some: "getBody d = Some hb \<Longrightarrow> hb < length (nodes d)"
  by (simp add: getBody_def split: option.splits if_splits)

lemma add_children_container: "add_children cs (container []) = container cs"
  by (simp add: add_children_def container_def)

lemma createElement_div: "createElement ''div'' d = (length (nodes d), d\<lparr>nodes := nodes d @ [container []]\<rparr>)"
  by (simp add: createElement_def container_def)

lemma base_stage:
  assumes "hb < length (nodes d)"
  shows "appendChild hb (length (nodes d))
           (snd (initializeBaseFontsSpans (length (nodes d))
                  (d\<lparr>nodes := nodes d @ [container [], container []]\<rparr>))) = baselined hb d"
    and "fst (initializeBaseFontsSpans (length (nodes d))
                  (d\<lparr>nodes := nodes d @ [container [], container []]\<rparr>)) =
           [length (nodes d) + 2..<length (nodes d) + 2 + length baseFonts]"
proof -
  let ?n = "length (nodes d)"
  let ?d2 = "d\<lparr>nodes := nodes d @ [container [], container []]\<rparr>"
  have lt: "?n < length (nodes ?d2)" and len: "length (nodes ?d2) = ?n + 2"
    by simp_all
  have at: "nodes ?d2 ! ?n = container []"
    by (simp add: nth_append)
  have upd: "(nodes ?d2)[?n := x] = nodes d @ [x, container []]" for x
    by (simp add: list_update_append)
  have init: "initializeBaseFontsSpans ?n ?d2 =
      ([?n + 2..<?n + 2 + length baseFonts],
       d\<lparr>nodes := nodes d @ ([container [?n + 2..<?n + 2 + length baseFonts], container []] @
                               map baseSpan baseFonts)\<rparr>)"
    unfolding initializeBaseFontsSpans_def baseFontsSpans_loop_eq[OF lt] len at upd
      add_children_container
    by simp
  show "fst (initializeBaseFontsSpans ?n ?d2) = [?n + 2..<?n + 2 + length baseFonts]"
    unfolding init by simp
  show "appendChild hb ?n (snd (initializeBaseFontsSpans ?n ?d2)) = baselined hb d"
    unfolding init snd_conv appendChild_old[OF assms]
    by (simp add: baselined_def Let_def del: upt_Suc)
qed

lemma length_baselined: "length (nodes (baselined hb d)) = length (nodes d) + 2 + length baseFonts"
  by (simp add: baselined_def Let_def del: upt_Suc)

lemma font_stage:
  assumes "hb < length (nodes d)"
  shows "appendChild hb (length (nodes d) + 1)
           (snd (initializeFontsSpans (length (nodes d) + 1) (baselined hb d))) = probed hb d"
proof -
  let ?n = "length (nodes d)" and ?k = "length baseFonts"
  let ?b = "(nodes d)[hb := add_children [?n] (nodes d ! hb)]"
  let ?d4 = "baselined hb d"
  have nodes4: "nodes ?d4 = ?b @ [container [?n + 2..<?n + 2 + ?k], container []] @ map baseSpan baseFonts"
    by (simp add: baselined_def Let_def del: upt_Suc)
  have lt: "?n + 1 < length (nodes ?d4)"
    by (simp add: length_baselined)
  have at: "nodes ?d4 ! (?n + 1) = container []"
    unfolding nodes4 by (simp add: nth_append)
  have upd: "(nodes ?d4)[?n + 1 := x] =
      ?b @ [container [?n + 2..<?n + 2 + ?k], x] @ map baseSpan baseFonts" for x
    unfolding nodes4 by (simp add: list_update_append)
  have init: "snd (initializeFontsSpans (?n + 1) ?d4) =
      d\<lparr>nodes := ?b @ ([container [?n + 2..<?n + 2 + ?k],
                         container [?n + 2 + ?k..<?n + 2 + ?k + ?k * length fontList]] @
                        map baseSpan baseFonts @
                        concat (map (\<lambda>f. map (fontSpan f) baseFonts) fontList))\<rparr>"
    unfolding initializeFontsSpans_def fontsSpans_loop_dom[OF lt] at upd add_children_container
      length_baselined
    by (simp add: baselined_def Let_def del: upt_Suc)
  have lb: "hb < length ?b"
    using assms by simp
  have twice: "?b[hb := add_children [?n + 1] (?b ! hb)] = (nodes d)[hb := add_children [?n, ?n + 1] (nodes d ! hb)]"
    using assms by (simp add: add_children_append)
  show ?thesis
    unfolding init appendChild_old[OF lb] twice
    by (simp add: probed_def Let_def del: upt_Suc)
qed


lemma fontSupport_on_stages:
  assumes "getBody d = Some hb"
  shows "fontSupport_on L d =
    (case defaults_loop L (baselined hb d)
            [length (nodes d) + 2..<length (nodes d) + 2 + length baseFonts]
            [0..<length baseFonts] (Map.empty, Map.empty) of
       Inl e \<Rightarrow> (Inl e, baselined hb d)
     | Inr (defaultWidth, defaultHeight) \<Rightarrow>
         (available_loop L (probed hb d) defaultWidth defaultHeight
            (fst (initializeFontsSpans (length (nodes d) + 1) (baselined hb d))) fontList [],
          probed hb d))"
proof -
  have hb: "hb < length (nodes d)"
    using assms by (rule getBody_Some)
  show ?thesis
    using base_stage[OF hb] font_stage[OF hb]
    by (simp add: fontSupport_on_def assms createElement_div Let_def split_beta del: upt_Suc
        cong: sum.case_cong)
qed


lemma fontSupport_on_dom:
  assumes "getBody d = Some hb"
  shows "snd (fontSupport_on L d) = probed hb d"
proof -
  have "\<forall>i \<in> set [0..<length baseFonts].
          i < length [length (nodes d) + 2..<length (nodes d) + 2 + length baseFonts]"
    by (simp del: upt_Suc)
  from defaults_loop_Inr[OF this] obtain wh where
    "defaults_loop L (baselined hb d)
       [length (nodes d) + 2..<length (nodes d) + 2 + length baseFonts]
       [0..<length baseFonts] (Map.empty, Map.empty) = Inr wh"
    by blast
  then show ?thesis
    unfolding fontSupport_on_stages[OF assms] by (simp add: split_beta)
qed

lemma baselined_nth_base:
  assumes "hb < length (nodes d)" and "j < length baseFonts"
  shows "nodes (baselined hb d) ! (length (nodes d) + 2 + j) = baseSpan (baseFonts ! j)"
proof -
  let ?A = "(nodes d)[hb := add_children [length (nodes d)] (nodes d ! hb)] @
            [container [length (nodes d) + 2..<length (nodes d) + 2 + length baseFonts], container []]"
  have n: "nodes (baselined hb d) = ?A @ map baseSpan baseFonts"
    by (simp add: baselined_def Let_def del: upt_Suc)
  have l: "length ?A = length (nodes d) + 2"
    by simp
  have "(?A @ map baseSpan baseFonts) ! (length ?A + j) = map baseSpan baseFonts ! j"
    by (rule nth_append_length_plus)
  then show ?thesis
    unfolding n l using assms(2) by simp
qed

lemma probed_nth_font:
  assumes "i < length fontList" and "j < length baseFonts"
  shows "nodes (probed hb d) !
           (length (nodes d) + 2 + length baseFonts + length baseFonts * i + j) =
         fontSpan (fontList ! i) (baseFonts ! j)"
proof -
  let ?n = "length (nodes d)" and ?k = "length baseFonts"
  let ?A = "(nodes d)[hb := add_children [?n, ?n + 1] (nodes d ! hb)] @
            [container [?n + 2..<?n + 2 + ?k],
             container [?n + 2 + ?k..<?n + 2 + ?k + ?k * length fontList]] @
            map baseSpan baseFonts"
  let ?C = "concat (map (\<lambda>f. map (fontSpan f) baseFonts) fontList)"
  have n: "nodes (probed hb d) = ?A @ ?C"
    by (simp add: probed_def Let_def del: upt_Suc)
  have l: "length ?A = ?n + 2 + ?k"
    by simp
  have "(?A @ ?C) ! (length ?A + (?k * i + j)) = ?C ! (?k * i + j)"
    by (rule nth_append_length_plus)
  then have "(?A @ ?C) ! (?n + 2 + ?k + ?k * i + j) = ?C ! (?k * i + j)"
    unfolding l by (simp add: add.assoc)
  then show ?thesis
    unfolding n using nth_concat_rows[OF assms, of fontSpan] by simp
qed

lemma length_probed:
  "length (nodes (probed hb d)) =
     length (nodes d) + 2 + length baseFonts + length baseFonts * length fontList"
  by (simp add: probed_def Let_def length_concat_rows del: upt_Suc)

lemma row_index_bound:
  assumes "i < (N::nat)" and "j < k"
  shows "k * i + j < k * N"
proof -
  have "k * i + j < k * i + k"
    using assms(2) by simp
  also have "\<dots> = k * Suc i"
    by simp
  also have "\<dots> \<le> k * N"
    using assms(1) by (intro mult_le_mono2) simp
  finally show ?thesis .
qed

lemma image_nth_upt: "(\<lambda>i. bs ! i) ` set [0..<length bs] = set bs"
proof -
  have "(\<lambda>i. bs ! i) ` set [0..<length bs] = set (map (\<lambda>i. bs ! i) [0..<length bs])"
    by (simp only: set_map)
  then show ?thesis
    by (simp only: map_nth)
qed

lemma getBody_baselined:
  assumes "getBody d = Some hb"
  shows "getBody (baselined hb d) = Some hb"
  using assms by (simp add: getBody_def baselined_def Let_def split: option.splits if_splits)

lemma getBody_probed:
  assumes "getBody d = Some hb"
  shows "getBody (probed hb d) = Some hb"
  using assms by (simp add: getBody_def probed_def Let_def split: option.splits if_splits)

lemma probed_body_children:
  assumes "hb < length (nodes d)"
  shows "children (nodes (probed hb d) ! hb) = children (nodes d ! hb) @ [length (nodes d), length (nodes d) + 1]"
  using assms by (simp add: probed_def Let_def nth_append add_children_def del: upt_Suc)

lemma probed_containers:
  "nodes (probed hb d) ! length (nodes d) =
     container [length (nodes d) + 2..<length (nodes d) + 2 + length baseFonts]"
  "nodes (probed hb d) ! (length (nodes d) + 1) =
     container [length (nodes d) + 2 + length baseFonts..<
                length (nodes d) + 2 + length baseFonts + length baseFonts * length fontList]"
  by (simp_all add: probed_def Let_def nth_append del: upt_Suc)

lemma baselined_body_children:
  assumes "hb < length (nodes d)"
  shows "children (nodes (baselined hb d) ! hb) = children (nodes d ! hb) @ [length (nodes d)]"
  using assms by (simp add: baselined_def Let_def nth_append add_children_def del: upt_Suc)

lemma baselined_container:
  "nodes (baselined hb d) ! length (nodes d) =
     container [length (nodes d) + 2..<length (nodes d) + 2 + length baseFonts]"
  by (simp add: baselined_def Let_def nth_append del: upt_Suc)

text \<open>
  The baseline spans are in the tree when they are measured, and so are the spans of the
  candidates: each container is appended to the body before the sizes of its spans are read.
\<close>

lemma attached_baselined:
  assumes "getBody d = Some hb" and "j < length baseFonts"
  shows "attached (baselined hb d) (length (nodes d) + 2 + j)"
proof -
  let ?n = "length (nodes d)" and ?b = "baselined hb d"
  have hb: "hb < ?n"
    using assms(1) by (rule getBody_Some)
  have root: "attached ?b hb"
    using getBody_baselined[OF assms(1)] by (rule attached.body)
  have hb': "hb < length (nodes ?b)"
    using hb by (simp add: length_baselined)
  have "?n \<in> set (children (nodes ?b ! hb))"
    by (simp add: baselined_body_children[OF hb])
  with root hb' have div: "attached ?b ?n"
    by (rule attached.child)
  have n': "?n < length (nodes ?b)"
    by (simp add: length_baselined)
  have "children (nodes ?b ! ?n) = [?n + 2..<?n + 2 + length baseFonts]"
    unfolding baselined_container by (simp add: container_def)
  then have "?n + 2 + j \<in> set (children (nodes ?b ! ?n))"
    using assms(2) by (simp del: upt_Suc)
  with div n' show ?thesis
    by (rule attached.child)
qed

lemma attached_probed:
  assumes "getBody d = Some hb" and "i < length fontList" and "j < length baseFonts"
  shows "attached (probed hb d)
           (length (nodes d) + 2 + length baseFonts + length baseFonts * i + j)"
proof -
  let ?n = "length (nodes d)" and ?k = "length baseFonts" and ?p = "probed hb d"
  have hb: "hb < ?n"
    using assms(1) by (rule getBody_Some)
  have root: "attached ?p hb"
    using getBody_probed[OF assms(1)] by (rule attached.body)
  have hb': "hb < length (nodes ?p)"
    using hb by (simp add: length_probed)
  have "?n + 1 \<in> set (children (nodes ?p ! hb))"
    by (simp add: probed_body_children[OF hb])
  with root hb' have div: "attached ?p (?n + 1)"
    by (rule attached.child)
  have n': "?n + 1 < length (nodes ?p)"
    by (simp add: length_probed)
  have "?k * i + j < ?k * length fontList"
    using assms(2,3) by (rule row_index_bound)
  moreover have "children (nodes ?p ! (?n + 1)) =
      [?n + 2 + ?k..<?n + 2 + ?k + ?k * length fontList]"
    unfolding probed_containers by (simp add: container_def)
  ultimately have "?n + 2 + ?k + ?k * i + j \<in> set (children (nodes ?p ! (?n + 1)))"
    by (simp del: upt_Suc)
  with div n' show ?thesis
    by (rule attached.child)
qed

lemma fontSupport_on_result:
  assumes body: "getBody d = Some hb" and meas: "measures_by L g"
  shows "fst (fontSupport_on L d) = Inr (filter (judged_available g) fontList)"
proof -
  let ?n = "length (nodes d)" and ?k = "length baseFonts"
  let ?m = "?n + 2 + ?k"
  let ?bids = "[?n + 2..<?n + 2 + ?k]"
  have hb: "hb < ?n"
    using body by (rule getBody_Some)
  have L: "attached x e \<Longrightarrow> e < length (nodes x) \<Longrightarrow> L x e = g (nodes x ! e)" for x e
    using meas by (simp add: measures_by_def)
  \<comment> \<open>the defaults\<close>
  have "\<forall>i \<in> set [0..<?k]. i < length ?bids \<and>
          offsetWidth L (baselined hb d) (?bids ! i) = fst (g (baseSpan (baseFonts ! i))) \<and>
          offsetHeight L (baselined hb d) (?bids ! i) = snd (g (baseSpan (baseFonts ! i)))"
  proof
    fix i assume "i \<in> set [0..<?k]"
    then have i: "i < ?k" by simp
    then have at: "?bids ! i = ?n + 2 + i"
      by (simp del: upt_Suc)
    have "?n + 2 + i < length (nodes (baselined hb d))"
      using i by (simp add: length_baselined)
    then have "L (baselined hb d) (?n + 2 + i) = g (baseSpan (baseFonts ! i))"
      using L[OF attached_baselined[OF body i]] baselined_nth_base[OF hb i] by simp
    then show "i < length ?bids \<and>
          offsetWidth L (baselined hb d) (?bids ! i) = fst (g (baseSpan (baseFonts ! i))) \<and>
          offsetHeight L (baselined hb d) (?bids ! i) = snd (g (baseSpan (baseFonts ! i)))"
      unfolding at using i by (simp add: offsetWidth_def offsetHeight_def del: upt_Suc)
  qed
  from defaults_loop_ok[OF this, of "(Map.empty, Map.empty)"] obtain dw dh where
    dflt: "defaults_loop L (baselined hb d) ?bids [0..<?k] (Map.empty, Map.empty) = Inr (dw, dh)"
    and dw: "\<forall>b. dw b = (if b \<in> (\<lambda>i. baseFonts ! i) ` set [0..<?k] then Some (fst (g (baseSpan b))) else None)"
    and dh: "\<forall>b. dh b = (if b \<in> (\<lambda>i. baseFonts ! i) ` set [0..<?k] then Some (snd (g (baseSpan b))) else None)"
    by auto
  have recorded: "\<forall>b \<in> set baseFonts. dw b = Some (fst (g (baseSpan b))) \<and> dh b = Some (snd (g (baseSpan b)))"
    using dw dh unfolding image_nth_upt by simp
  \<comment> \<open>the spans of the candidates\<close>
  let ?spans = "fst (initializeFontsSpans (?n + 1) (baselined hb d))"
  have lt: "?n + 1 < length (nodes (baselined hb d))"
    by (simp add: length_baselined)
  have "\<forall>f \<in> set fontList. \<exists>ids. ?spans f = Some ids \<and>
          isFontAvailable L (probed hb d) dw dh ids = Inr (judged_available g f)"
  proof
    fix f assume "f \<in> set fontList"
    with fontsSpans_loop_spans[OF lt, of f fontList Map.empty]
    obtain i where i: "i < length fontList" "fontList ! i = f"
      and sp: "?spans f = Some [?m + ?k * i..<?m + ?k * i + ?k]"
      unfolding initializeFontsSpans_def length_baselined by blast
    let ?ids = "[?m + ?k * i..<?m + ?k * i + ?k]"
    have "\<forall>j \<in> set [0..<?k]. j < length ?ids \<and> j < ?k \<and>
            offsetWidth L (probed hb d) (?ids ! j) = fst (g (fontSpan f (baseFonts ! j))) \<and>
            offsetHeight L (probed hb d) (?ids ! j) = snd (g (fontSpan f (baseFonts ! j)))"
    proof
      fix j assume "j \<in> set [0..<?k]"
      then have j: "j < ?k" by simp
      then have at: "?ids ! j = ?m + ?k * i + j"
        by (simp del: upt_Suc)
      have "?m + ?k * i + j < length (nodes (probed hb d))"
        using row_index_bound[OF i(1) j] by (simp add: length_probed)
      then have "L (probed hb d) (?m + ?k * i + j) = g (fontSpan f (baseFonts ! j))"
        using L[OF attached_probed[OF body i(1) j]] probed_nth_font[OF i(1) j, of hb d] i(2)
        by simp
      then show "j < length ?ids \<and> j < ?k \<and>
            offsetWidth L (probed hb d) (?ids ! j) = fst (g (fontSpan f (baseFonts ! j))) \<and>
            offsetHeight L (probed hb d) (?ids ! j) = snd (g (fontSpan f (baseFonts ! j)))"
        unfolding at using j by (simp add: offsetWidth_def offsetHeight_def del: upt_Suc)
    qed
    from isFontAvailable_loop_ok[OF this recorded]
    have "isFontAvailable L (probed hb d) dw dh ?ids = Inr (judged_available g f)"
      by (simp add: isFontAvailable_def judged_available_def list_ex_nth)
    with sp show "\<exists>ids. ?spans f = Some ids \<and>
          isFontAvailable L (probed hb d) dw dh ids = Inr (judged_available g f)"
      by blast
  qed
  from available_loop_ok[OF this, of "[]"]
  have "available_loop L (probed hb d) dw dh ?spans fontList [] = Inr (filter (judged_available g) fontList)"
    by simp
  then show ?thesis
    unfolding fontSupport_on_stages[OF body] dflt by simp
qed


subsection \<open>The probe on a host\<close>

lemma fontSupport_eq:
  assumes "document h = Some doc"
  shows "fontSupport h =
    (([], (case fst (fontSupport_on (doc_layout doc) (doc_dom doc)) of
             Inl e \<Rightarrow> Inl e
           | Inr fs \<Rightarrow> Inr (JArr (map JStr fs)))),
     h\<lparr>document := Some (doc\<lparr>doc_dom := snd (fontSupport_on (doc_layout doc) (doc_dom doc))\<rparr>)\<rparr>)"
  using assms by (simp add: fontSupport_def split_beta)

lemma probed_old:
  assumes "e < length (nodes d)" and "e \<noteq> hb"
  shows "nodes (probed hb d) ! e = nodes d ! e"
  using assms by (simp add: probed_def Let_def nth_append del: upt_Suc)

lemma getBody_sample_dom: "getBody sample_dom = Some 0"
  by (simp add: getBody_def sample_dom_def)

lemma measures_by_sample: "measures_by (doc_layout sample_document) (\<lambda>e. (0, 0))"
  by (simp add: measures_by_def sample_document_def)

lemma measures_by_widening: "measures_by (doc_layout widening_document) family_width"
  by (simp add: measures_by_def widening_document_def)

lemma family_of_spans:
  "map_of (style (baseSpan b)) ''fontFamily'' = Some b"
  "map_of (style (fontSpan f b)) ''fontFamily'' = Some (fontFamily_of f b)"
  by (simp_all add: baseSpan_def fontSpan_def probeSpan_def spanStyle_def map_of_append)

lemma widening_judges_all: "judged_available family_width f"
  by (simp add: judged_available_def baseFonts_def differs_def family_width_def family_of_spans
      fontFamily_of_def)

lemma flat_judges_none: "\<not> judged_available (\<lambda>e. (0, 0)) f"
  by (simp add: judged_available_def baseFonts_def differs_def)

lemma getBody_page_dom: "getBody (doc_dom page_document) = Some 1"
  by (simp add: page_document_def getBody_def page_dom_def)

section \<open>C5: the list of the candidates judged available\<close>

text \<open>
  C5. Let the host report for every probe span the width and height that an assignment
  \<open>g\<close> gives it. Then \<open>fontSupport\<close> returns the candidates of the reference list that
  are judged available, in the order of that list, where a candidate is judged available
  iff for at least one of the three baseline families (monospace, sans-serif, serif) the
  width or the height of the candidate-over-baseline span differs from the recorded
  width or height of the span of that baseline alone.
\<close>

theorem fontSupport_lists_judged_available:
  assumes "document h = Some doc" and "getBody (doc_dom doc) = Some hb"
    and "measures_by (doc_layout doc) g"
  shows "fst (fontSupport h) = ([], Inr (JArr (map JStr (filter (judged_available g) fontList)))) \<and>
         (\<forall>f. judged_available g f \<longleftrightarrow>
            (\<exists>b \<in> set [''monospace'', ''sans-serif'', ''serif''].
               fst (g (fontSpan f b)) \<noteq> fst (g (baseSpan b)) \<or>
               snd (g (fontSpan f b)) \<noteq> snd (g (baseSpan b))))"
proof
  show "fst (fontSupport h) = ([], Inr (JArr (map JStr (filter (judged_available g) fontList))))"
    unfolding fontSupport_eq[OF assms(1)] fst_conv fontSupport_on_result[OF assms(2,3)]
    by simp
next
  show "\<forall>f. judged_available g f \<longleftrightarrow>
            (\<exists>b \<in> set [''monospace'', ''sans-serif'', ''serif''].
               fst (g (fontSpan f b)) \<noteq> fst (g (baseSpan b)) \<or>
               snd (g (fontSpan f b)) \<noteq> snd (g (baseSpan b)))"
    by (simp add: judged_available_def differs_def baseFonts_def)
qed

text \<open>
  The theorem on two desktop browsers with an empty body: one whose layout engine gives
  every candidate-over-baseline span a greater width than the baseline span (every
  candidate is listed), and one that reports the same size for every element (none is).
\<close>

theorem fontSupport_lists_judged_available_witness:
  "document (browser_host firefox_ua sample_window widening_document) = Some widening_document \<and>
   getBody (doc_dom widening_document) = Some 0 \<and>
   measures_by (doc_layout widening_document) family_width \<and>
   fst (fontSupport (browser_host firefox_ua sample_window widening_document))
     = ([], Inr (JArr (map JStr fontList))) \<and>
   measures_by (doc_layout sample_document) (\<lambda>e. (0, 0)) \<and>
   fst (fontSupport (browser_host firefox_ua sample_window sample_document)) = ([], Inr (JArr []))"
proof -
  have d: "getBody (doc_dom widening_document) = Some 0"
    by (simp add: widening_document_def sample_document_def getBody_sample_dom)
  have d0: "getBody (doc_dom sample_document) = Some 0"
    by (simp add: sample_document_def getBody_sample_dom)
  have "fst (fontSupport (browser_host firefox_ua sample_window widening_document))
      = ([], Inr (JArr (map JStr (filter (judged_available family_width) fontList))))"
    using fontSupport_lists_judged_available[OF browser_host_sel(2) d measures_by_widening]
    by blast
  moreover have "fst (fontSupport (browser_host firefox_ua sample_window sample_document))
      = ([], Inr (JArr (map JStr (filter (judged_available (\<lambda>e. (0, 0))) fontList))))"
    using fontSupport_lists_judged_available[OF browser_host_sel(2) d0 measures_by_sample]
    by blast
  ultimately show ?thesis
    using d measures_by_widening measures_by_sample
    by (simp add: widening_judges_all flat_judges_none browser_host_sel)
qed

section \<open>C8: the probe elements stay in the document\<close>

text \<open>
  C8, as amended. \<open>fontSupport\<close> removes none of the probe elements it creates: when it
  returns, the two containers it created are the last two children of the body, after the
  children the body had, and the store holds them, the 3 baseline spans and the 3 spans
  of every candidate besides the elements it held before; every element of the document
  other than the body is as it was.
\<close>

theorem fontSupport_leaves_probe_elements:
  assumes "document h = Some doc" and "getBody (doc_dom doc) = Some hb"
  shows "document (snd (fontSupport h)) = Some (doc\<lparr>doc_dom := probed hb (doc_dom doc)\<rparr>) \<and>
         body_children (snd (fontSupport h)) =
           Some (children (nodes (doc_dom doc) ! hb) @
                 [length (nodes (doc_dom doc)), length (nodes (doc_dom doc)) + 1]) \<and>
         (\<forall>e < length (nodes (doc_dom doc)). e \<noteq> hb \<longrightarrow>
            nodes (probed hb (doc_dom doc)) ! e = nodes (doc_dom doc) ! e) \<and>
         length (nodes (probed hb (doc_dom doc))) =
           length (nodes (doc_dom doc)) + 2 + 3 + 3 * length fontList"
proof (intro conjI allI impI)
  let ?d = "doc_dom doc"
  have hb: "hb < length (nodes ?d)"
    using assms(2) by (rule getBody_Some)
  show doc': "document (snd (fontSupport h)) = Some (doc\<lparr>doc_dom := probed hb ?d\<rparr>)"
    unfolding fontSupport_eq[OF assms(1)] snd_conv fontSupport_on_dom[OF assms(2)]
    by simp
  show "body_children (snd (fontSupport h)) =
          Some (children (nodes ?d ! hb) @ [length (nodes ?d), length (nodes ?d) + 1])"
    unfolding body_children_def doc'
    by (simp add: getBody_probed[OF assms(2)] probed_body_children[OF hb])
  show "length (nodes (probed hb ?d)) = length (nodes ?d) + 2 + 3 + 3 * length fontList"
    by (simp add: length_probed baseFonts_def)
next
  fix e assume "e < length (nodes (doc_dom doc))" and "e \<noteq> hb"
  then show "nodes (probed hb (doc_dom doc)) ! e = nodes (doc_dom doc) ! e"
    by (rule probed_old)
qed

text \<open>The theorem on a desktop browser whose document has a paragraph in its body.\<close>

theorem fontSupport_leaves_probe_elements_witness:
  "document (browser_host firefox_ua sample_window page_document) = Some page_document \<and>
   getBody (doc_dom page_document) = Some 1 \<and>
   body_children (browser_host firefox_ua sample_window page_document) = Some [2] \<and>
   body_children (snd (fontSupport (browser_host firefox_ua sample_window page_document)))
     = Some [2, 3, 4] \<and>
   nodes (probed 1 page_dom) ! 0 = nodes page_dom ! 0 \<and>
   nodes (probed 1 page_dom) ! 2 = nodes page_dom ! 2"
proof -
  let ?h = "browser_host firefox_ua sample_window page_document"
  have dd: "doc_dom page_document = page_dom"
    by (simp add: page_document_def)
  have before: "body_children ?h = Some [2]"
    by (simp add: body_children_def browser_host_sel getBody_page_dom) (simp add: dd page_dom_def)
  have n: "length (nodes page_dom) = 3" and c: "children (nodes page_dom ! 1) = [2]"
    by (simp_all add: page_dom_def)
  note th = fontSupport_leaves_probe_elements[OF browser_host_sel(2) getBody_page_dom,
      of firefox_ua sample_window, unfolded dd n c]
  from th have after: "body_children (snd (fontSupport ?h)) = Some [2, 3, 4]"
    by simp
  from th have "nodes (probed 1 page_dom) ! 0 = nodes page_dom ! 0"
    and "nodes (probed 1 page_dom) ! 2 = nodes page_dom ! 2"
    by simp_all
  with before after show ?thesis
    by (simp add: browser_host_sel getBody_page_dom)
qed

text \<open>
  C8 as stated fails: the claim has the child structure of the document unchanged by a
  call, and on a desktop browser with an empty body the body has two children after it.
\<close>

theorem fontSupport_grows_body:
  "body_children (browser_host firefox_ua sample_window sample_document) = Some [] \<and>
   body_children (snd (fontSupport (browser_host firefox_ua sample_window sample_document)))
     = Some [1, 2]"
proof -
  let ?h = "browser_host firefox_ua sample_window sample_document"
  have dd: "doc_dom sample_document = sample_dom"
    by (simp add: sample_document_def)
  have b: "getBody (doc_dom sample_document) = Some 0"
    by (simp add: dd getBody_sample_dom)
  have before: "body_children ?h = Some []"
    by (simp add: body_children_def browser_host_sel b) (simp add: dd sample_dom_def)
  have "document (snd (fontSupport ?h)) = Some (sample_document\<lparr>doc_dom := probed 0 sample_dom\<rparr>)"
    unfolding fontSupport_eq[OF browser_host_sel(2)] snd_conv dd
      fontSupport_on_dom[OF getBody_sample_dom]
    by simp
  then have "body_children (snd (fontSupport ?h)) = Some (children (nodes (probed 0 sample_dom) ! 0))"
    using getBody_probed[OF getBody_sample_dom] by (simp add: body_children_def)
  also have "children (nodes (probed 0 sample_dom) ! 0) = [1, 2]"
    using probed_body_children[of 0 sample_dom] by (simp add: sample_dom_def)
  finally show ?thesis
    using before by simp
qed

section \<open>C9: the probe run twice\<close>



end
